theory Spec2Isabelle
  imports Complex_Main
begin

section \<open>Data model (models.py)\<close>

text \<open>
  Python floats (prices, sizes, balances) are modelled as exact reals: comparisons,
  \<open>max\<close>/\<open>min\<close> and the branch structure of the code are the same, rounding of the
  binary representation is left out. Timestamps are Python ints (milliseconds).
  Every \<open>raise\<close> of the modelled code is a value \<open>Inl e\<close>.
\<close>

datatype py_error = IndexError | KeyError | ZeroDivisionError | TypeError | ValueError
  | JSONDecodeError

text \<open>class Candle: the fields set by every branch of \<open>Candle.__init__\<close>.\<close>

record candle =
  timestamp :: int
  open_c :: real
  high :: real
  low :: real
  close :: real
  volume :: real

text \<open>
  class Contract. \<open>price_decimals\<close> and \<open>quantity_decimals\<close> (string formatting of
  floats) are not read by the modelled functions and are left out; \<open>quanto\<close>,
  \<open>inverse\<close> and \<open>multiplier\<close> are set for Bitmex contracts only.
\<close>

record contract =
  symbol :: string
  base_asset :: string
  quote_asset :: string
  tick_size :: real
  lot_size :: real
  quanto :: bool
  inverse :: bool
  multiplier :: real

text \<open>class Balance: \<open>wallet_balance\<close> (futures, Bitmex) and \<open>free\<close> (spot).\<close>

record balance =
  wallet_balance :: real
  free :: real

text \<open>class OrderStatus.\<close>

record order_status =
  order_id :: string
  o_status :: string
  avg_price :: real
  executed_qty :: real

text \<open>class Trade; \<open>entry_price\<close> is \<open>None\<close> until the fill is confirmed.\<close>

record trade =
  time :: int
  t_contract :: contract
  t_strategy :: string
  side :: string
  entry_price :: "real option"
  status :: string
  pnl :: real
  quantity :: real
  entry_id :: string

section \<open>The connector as seen by a strategy\<close>

text \<open>
  A strategy calls \<open>client.get_balances()\<close>, \<open>client.get_trade_size(...)\<close> and
  \<open>client.place_order(...)\<close>. The exchange's answers are not determined by the program:
  \<open>balances_reply n\<close> is the balance table built from the answer to the \<open>n\<close>-th balance
  request (the empty table when the request failed, as \<open>get_balances\<close> returns an empty
  dict then), \<open>order_reply n\<close> the result of the \<open>n\<close>-th \<open>place_order\<close> call
  (\<open>None\<close> when the request failed). \<open>orders\<close> records the arguments of every
  \<open>place_order\<close> call, oldest first. The connector methods are taken at their
  interface here: a call returns, with \<open>None\<close> or an empty table for a request that
  failed. How the REST wrapper below them produces these results is the subject of the
  section on \<open>_make_request\<close>.
\<close>

datatype connector = Binance | Bitmex

record order_request =
  r_symbol :: string
  r_type :: string
  r_quantity :: real
  r_side :: string

record client =
  connector :: connector
  platform :: string
  futures :: bool
  balances_reply :: "nat \<Rightarrow> (string \<rightharpoonup> balance)"
  balance_calls :: nat
  order_reply :: "nat \<Rightarrow> order_status option"
  orders :: "order_request list"

definition get_balances :: "client \<Rightarrow> (string \<rightharpoonup> balance) option \<times> client" where
  "get_balances c =
     (Some (balances_reply c (balance_calls c)), c\<lparr>balance_calls := Suc (balance_calls c)\<rparr>)"

definition place_order ::
  "client \<Rightarrow> contract \<Rightarrow> string \<Rightarrow> real \<Rightarrow> string \<Rightarrow> order_status option \<times> client" where
  "place_order c k order_type qty order_side =
     (order_reply c (length (orders c)),
      c\<lparr>orders := orders c @
         [\<lparr>r_symbol = symbol k, r_type = order_type, r_quantity = qty, r_side = order_side\<rparr>]\<rparr>)"

section \<open>Strategy (strategies.py)\<close>

text \<open>The entries of \<open>self.logs\<close>; the text of a message is its constructor.\<close>

datatype log_entry =
    Log_signal string
  | Log_order_placed string string
  | Log_tp_sl bool real "real option"
  | Log_exit

text \<open>
  The two subclasses: \<open>TechnicalStrategy\<close> keeps \<open>ema_fast\<close>, \<open>ema_slow\<close>,
  \<open>ema_signal\<close> and \<open>rsi_length\<close>, \<open>BreakoutStrategy\<close> keeps \<open>min_volume\<close>.
\<close>

datatype variant = Technical nat nat nat nat | Breakout real

record strategy =
  variant :: variant
  contract :: contract
  exchange :: string
  tf :: string
  tf_equiv :: int
  balance_pct :: real
  take_profit :: "real option"
  stop_loss :: "real option"
  strat_name :: string
  ongoing_position :: bool
  candles :: "candle list"
  trades :: "trade list"
  logs :: "log_entry list"

definition TF_EQUIV :: "string \<Rightarrow> int option" where
  "TF_EQUIV t =
     (if t = ''1m'' then Some 60 else if t = ''5m'' then Some 300
      else if t = ''15m'' then Some 900 else if t = ''30m'' then Some 1800
      else if t = ''1h'' then Some 3600 else if t = ''4h'' then Some 14400 else None)"

text \<open>
  \<open>Strategy.__init__\<close>, called by the constructor of either subclass (which stores its
  own parameters, here \<open>v\<close>): an unknown timeframe raises \<open>KeyError\<close>.
\<close>

definition Strategy_init ::
  "variant \<Rightarrow> contract \<Rightarrow> string \<Rightarrow> string \<Rightarrow> real \<Rightarrow> real option \<Rightarrow> real option \<Rightarrow> string
     \<Rightarrow> py_error + strategy" where
  "Strategy_init v k exch timeframe pct tp sl name =
     (case TF_EQUIV timeframe of
        None \<Rightarrow> Inl KeyError
      | Some w \<Rightarrow> Inr \<lparr>variant = v, contract = k, exchange = exch, tf = timeframe, tf_equiv = w * 1000,
          balance_pct = pct, take_profit = tp, stop_loss = sl, strat_name = name,
          ongoing_position = False, candles = [], trades = [], logs = []\<rparr>)"

definition add_log :: "log_entry \<Rightarrow> strategy \<Rightarrow> strategy" where
  "add_log m s = s\<lparr>logs := logs s @ [m]\<rparr>"

subsection \<open>\<open>_check_tp_sl\<close>\<close>

text \<open>
  \<open>trade.entry_price * f\<close>: a \<open>TypeError\<close> when the entry price is \<open>None\<close>.
\<close>

definition entry_times :: "trade \<Rightarrow> real \<Rightarrow> py_error + real" where
  "entry_times t f = (case entry_price t of None \<Rightarrow> Inl TypeError | Some e \<Rightarrow> Inr (e * f))"

text \<open>
  The two flags \<open>(tp_triggered, sl_triggered)\<close> as the first half of \<open>_check_tp_sl\<close>
  computes them; the stop loss is tested before the take profit.
\<close>

definition tp_sl_flags :: "strategy \<Rightarrow> trade \<Rightarrow> real \<Rightarrow> py_error + (bool \<times> bool)" where
  "tp_sl_flags s t price =
     (if side t = ''long'' then
        (case (case stop_loss s of None \<Rightarrow> Inr False
               | Some sl \<Rightarrow> (case entry_times t (1 - sl / 100) of
                              Inl e \<Rightarrow> Inl e | Inr lvl \<Rightarrow> Inr (price \<le> lvl))) of
           Inl e \<Rightarrow> Inl e
         | Inr sl_triggered \<Rightarrow>
             (case take_profit s of None \<Rightarrow> Inr (False, sl_triggered)
              | Some tp \<Rightarrow> (case entry_times t (1 + tp / 100) of
                             Inl e \<Rightarrow> Inl e | Inr lvl \<Rightarrow> Inr (price \<ge> lvl, sl_triggered))))
      else if side t = ''short'' then
        (case (case stop_loss s of None \<Rightarrow> Inr False
               | Some sl \<Rightarrow> (case entry_times t (1 + sl / 100) of
                              Inl e \<Rightarrow> Inl e | Inr lvl \<Rightarrow> Inr (price \<ge> lvl))) of
           Inl e \<Rightarrow> Inl e
         | Inr sl_triggered \<Rightarrow>
             (case take_profit s of None \<Rightarrow> Inr (False, sl_triggered)
              | Some tp \<Rightarrow> (case entry_times t (1 - tp / 100) of
                             Inl e \<Rightarrow> Inl e | Inr lvl \<Rightarrow> Inr (price \<le> lvl, sl_triggered))))
      else Inr (False, False))"

text \<open>
  The spot branch of \<open>_check_tp_sl\<close>: before a SELL the quantity of the trade is clamped
  to the free balance of the base asset.
\<close>

definition clamp_quantity :: "strategy \<Rightarrow> client \<Rightarrow> string \<Rightarrow> trade \<Rightarrow> trade \<times> client" where
  "clamp_quantity s c order_side t =
     (if \<not> futures c then
        (case get_balances c of
           (None, c1) \<Rightarrow> (t, c1)
         | (Some current_balances, c1) \<Rightarrow>
             (case current_balances (base_asset (contract s)) of
                Some b \<Rightarrow>
                  (if order_side = ''SELL'' then (t\<lparr>quantity := min (free b) (quantity t)\<rparr>, c1)
                   else (t, c1))
              | None \<Rightarrow> (t, c1)))
      else (t, c))"

text \<open>
  \<open>_check_tp_sl(trade)\<close>, the trade being the object at index \<open>i\<close> of \<open>self.trades\<close>
  (the method mutates it in place).
\<close>

definition check_tp_sl :: "nat \<Rightarrow> strategy \<Rightarrow> client \<Rightarrow> py_error + (strategy \<times> client)" where
  "check_tp_sl i s c =
     (case candles s of
        [] \<Rightarrow> Inl IndexError
      | _ # _ \<Rightarrow>
          (let t = trades s ! i; price = close (last (candles s)) in
           case tp_sl_flags s t price of
             Inl e \<Rightarrow> Inl e
           | Inr (tp_triggered, sl_triggered) \<Rightarrow>
               if tp_triggered \<or> sl_triggered then
                 (let s1 = add_log (Log_tp_sl sl_triggered price (entry_price t)) s;
                      order_side = (if side t = ''long'' then ''SELL'' else ''BUY'');
                      (t1, c1) = clamp_quantity s1 c order_side t;
                      s2 = s1\<lparr>trades := (trades s1)[i := t1]\<rparr>;
                      (order_status, c2) = place_order c1 (contract s2) ''MARKET'' (quantity t1) order_side
                  in case order_status of
                       None \<Rightarrow> Inr (s2, c2)
                     | Some _ \<Rightarrow>
                         Inr ((add_log Log_exit s2)
                                \<lparr>trades := (trades s2)[i := t1\<lparr>status := ''closed''\<rparr>],
                                 ongoing_position := False\<rparr>, c2))
               else Inr (s, c)))"

text \<open>
  The loop \<open>for trade in self.trades: if trade.status == "open" and trade.entry_price is
  not None: self._check_tp_sl(trade)\<close>, over the indices of the list.
\<close>

fun tp_sl_loop :: "nat list \<Rightarrow> strategy \<Rightarrow> client \<Rightarrow> py_error + (strategy \<times> client)" where
  "tp_sl_loop [] s c = Inr (s, c)"
| "tp_sl_loop (i # is) s c =
     (if status (trades s ! i) = ''open'' \<and> entry_price (trades s ! i) \<noteq> None then
        (case check_tp_sl i s c of
           Inl e \<Rightarrow> Inl e
         | Inr (s1, c1) \<Rightarrow> tp_sl_loop is s1 c1)
      else tp_sl_loop is s c)"

subsection \<open>\<open>parse_trades\<close>\<close>

text \<open>
  \<open>int(a / b)\<close> on Python ints: the true quotient truncated toward zero,
  \<open>ZeroDivisionError\<close> for \<open>b = 0\<close>. Python forms the quotient as a float; for
  millisecond timestamps and the bucket widths of \<open>TF_EQUIV\<close> its truncation is that of
  the exact quotient.
\<close>

definition py_int_truediv :: "int \<Rightarrow> int \<Rightarrow> py_error + int" where
  "py_int_truediv a b =
     (if b = 0 then Inl ZeroDivisionError else Inr (sgn a * sgn b * (\<bar>a\<bar> div \<bar>b\<bar>)))"

text \<open>
  The loop \<open>for missing in range(missing_candles)\<close>: \<open>n\<close> iterations left, \<open>lc\<close> the
  variable \<open>last_candle\<close>, \<open>cs\<close> the list \<open>self.candles\<close>.
\<close>

fun missing_loop :: "nat \<Rightarrow> int \<Rightarrow> candle \<Rightarrow> candle list \<Rightarrow> candle \<times> candle list" where
  "missing_loop 0 w lc cs = (lc, cs)"
| "missing_loop (Suc n) w lc cs =
     (let new_candle = \<lparr>timestamp = timestamp lc + w, open_c = close lc, high = close lc,
                          low = close lc, close = close lc, volume = 0\<rparr>
      in missing_loop n w new_candle (cs @ [new_candle]))"

text \<open>
  \<open>parse_trades(price, size, timestamp)\<close> (\<open>sz\<close> is \<open>size\<close>, \<open>ts\<close> is \<open>timestamp\<close>). The result is the returned string, \<open>None\<close>
  when the method falls off its last \<open>elif\<close>. The stale-tick warning only writes to the
  process log.
\<close>

definition parse_trades ::
  "real \<Rightarrow> real \<Rightarrow> int \<Rightarrow> strategy \<Rightarrow> client
     \<Rightarrow> py_error + (string option \<times> strategy \<times> client)" where
  "parse_trades price sz ts s c =
     (case candles s of
        [] \<Rightarrow> Inl IndexError
      | _ # _ \<Rightarrow>
          (let last_candle = last (candles s) in
           if ts < timestamp last_candle + tf_equiv s then
             (let lc1 = last_candle\<lparr>close := price, volume := volume last_candle + sz\<rparr>;
                  lc2 = (if price > high lc1 then lc1\<lparr>high := price\<rparr>
                         else if price < low lc1 then lc1\<lparr>low := price\<rparr> else lc1);
                  s1 = s\<lparr>candles := butlast (candles s) @ [lc2]\<rparr>
              in case tp_sl_loop [0..<length (trades s1)] s1 c of
                   Inl e \<Rightarrow> Inl e
                 | Inr (s2, c2) \<Rightarrow> Inr (Some ''same_candle'', s2, c2))
           else if ts \<ge> timestamp last_candle + 2 * tf_equiv s then
             (case py_int_truediv (ts - timestamp last_candle) (tf_equiv s) of
                Inl e \<Rightarrow> Inl e
              | Inr q \<Rightarrow>
                  (let missing_candles = q - 1;
                       (lc, cs) = missing_loop (nat missing_candles) (tf_equiv s) last_candle (candles s);
                       new_candle = \<lparr>timestamp = timestamp lc + tf_equiv s, open_c = price,
                                     high = price, low = price, close = price, volume = sz\<rparr>
                   in Inr (Some ''new_candle'', s\<lparr>candles := cs @ [new_candle]\<rparr>, c)))
           else if ts \<ge> timestamp last_candle + tf_equiv s then
             (let new_candle = \<lparr>timestamp = timestamp last_candle + tf_equiv s, open_c = price,
                                 high = price, low = price, close = price, volume = sz\<rparr>
              in Inr (Some ''new_candle'', s\<lparr>candles := candles s @ [new_candle]\<rparr>, c))
           else Inr (None, s, c)))"


subsection \<open>Vocabulary for the candle claims\<close>

text \<open>
  The \<open>j\<close>-th synthetic candle that the missing-candle loop appends after the candle
  \<open>lc\<close> (bucket width \<open>w\<close>), and the candle opened by a tick.
\<close>

definition flat_candle :: "candle \<Rightarrow> int \<Rightarrow> nat \<Rightarrow> candle" where
  "flat_candle lc w j = \<lparr>timestamp = timestamp lc + (int j + 1) * w, open_c = close lc,
      high = close lc, low = close lc, close = close lc, volume = 0\<rparr>"

definition tick_candle :: "int \<Rightarrow> real \<Rightarrow> real \<Rightarrow> candle" where
  "tick_candle t price sz = \<lparr>timestamp = t, open_c = price, high = price, low = price,
      close = price, volume = sz\<rparr>"



section \<open>Order sizing (\<open>get_trade_size\<close> of the two connectors)\<close>

text \<open>
  Python's \<open>round(x)\<close> (to the nearest integer, a tie to the even one), \<open>round(x, n)\<close>
  and \<open>int(x)\<close> (truncation toward zero) on exact reals.
\<close>

definition py_round :: "real \<Rightarrow> int" where
  "py_round x =
     (let f = \<lfloor>x\<rfloor>; d = x - of_int f in
      if d < 1 / 2 then f else if d > 1 / 2 then f + 1 else if even f then f else f + 1)"

definition py_round_ndigits :: "real \<Rightarrow> nat \<Rightarrow> real" where
  "py_round_ndigits x n = of_int (py_round (x * 10 ^ n)) / 10 ^ n"

definition py_int :: "real \<Rightarrow> int" where
  "py_int x = (if 0 \<le> x then \<lfloor>x\<rfloor> else \<lceil>x\<rceil>)"

text \<open>\<open>BinanceClient.get_trade_size\<close>.\<close>

definition binance_get_trade_size ::
  "client \<Rightarrow> contract \<Rightarrow> real \<Rightarrow> real \<Rightarrow> py_error + (real option \<times> client)" where
  "binance_get_trade_size c k price pct =
     (case get_balances c of
        (None, c1) \<Rightarrow> Inr (None, c1)
      | (Some bal, c1) \<Rightarrow>
          (case bal (quote_asset k) of
             None \<Rightarrow> Inr (None, c1)
           | Some b \<Rightarrow>
               (let balance = (if futures c then wallet_balance b else free b) in
                if price = 0 then Inl ZeroDivisionError
                else
                  (let trade_size = (balance * pct / 100) / price in
                   if lot_size k = 0 then Inl ZeroDivisionError
                   else Inr (Some (py_round_ndigits
                                     (of_int (py_round (trade_size / lot_size k)) * lot_size k) 8),
                             c1)))))"

text \<open>
  \<open>BitmexClient.get_trade_size\<close>; the quanto and the linear branch are the same
  expression. The result is a Python int, a whole number of contracts.
\<close>

definition bitmex_get_trade_size ::
  "client \<Rightarrow> contract \<Rightarrow> real \<Rightarrow> real \<Rightarrow> py_error + (real option \<times> client)" where
  "bitmex_get_trade_size c k price pct =
     (case get_balances c of
        (None, c1) \<Rightarrow> Inr (None, c1)
      | (Some bal, c1) \<Rightarrow>
          (case bal ''XBt'' of
             None \<Rightarrow> Inr (None, c1)
           | Some b \<Rightarrow>
               (let balance = wallet_balance b;
                    xbt_size = balance * pct / 100 in
                if inverse k then
                  (if price = 0 \<or> multiplier k / price = 0 then Inl ZeroDivisionError
                   else Inr (Some (of_int (py_int (xbt_size / (multiplier k / price)))), c1))
                else
                  (if multiplier k * price = 0 then Inl ZeroDivisionError
                   else Inr (Some (of_int (py_int (xbt_size / (multiplier k * price)))), c1)))))"

definition get_trade_size ::
  "client \<Rightarrow> contract \<Rightarrow> real \<Rightarrow> real \<Rightarrow> py_error + (real option \<times> client)" where
  "get_trade_size c k price pct =
     (case connector c of
        Binance \<Rightarrow> binance_get_trade_size c k price pct
      | Bitmex \<Rightarrow> bitmex_get_trade_size c k price pct)"



section \<open>Position lifecycle (strategies.py)\<close>

text \<open>
  \<open>_open_position(signal_result)\<close>; \<open>now\<close> is the value of \<open>int(time.time() * 1000)\<close>.
  The timer started for an order that is not filled yet runs \<open>_check_order_status\<close>
  later, see \<open>check_order_status\<close>. Every exception is raised before the first change
  of the strategy.
\<close>

definition open_position :: "int \<Rightarrow> int \<Rightarrow> strategy \<Rightarrow> client \<Rightarrow> py_error + (strategy \<times> client)" where
  "open_position now signal_result s c =
     (if platform c = ''binance_spot'' \<and> signal_result = - 1 then Inr (s, c)
      else
        (case candles s of
           [] \<Rightarrow> Inl IndexError
         | _ # _ \<Rightarrow>
             (case get_trade_size c (contract s) (close (last (candles s))) (balance_pct s) of
                Inl e \<Rightarrow> Inl e
              | Inr (None, c1) \<Rightarrow> Inr (s, c1)
              | Inr (Some trade_size, c1) \<Rightarrow>
                  (let order_side = (if signal_result = 1 then ''buy'' else ''sell'');
                       position_side = (if signal_result = 1 then ''long'' else ''short'');
                       s1 = add_log (Log_signal position_side) s;
                       (order_status, c2) = place_order c1 (contract s) ''MARKET'' trade_size order_side
                   in case order_status of
                        None \<Rightarrow> Inr (s1, c2)
                      | Some os \<Rightarrow>
                          (let s2 = (add_log (Log_order_placed order_side (o_status os)) s1)
                                      \<lparr>ongoing_position := True\<rparr>;
                               avg_fill_price = (if o_status os = ''filled'' then Some (avg_price os)
                                                 else None);
                               new_trade = \<lparr>time = now, t_contract = contract s,
                                  t_strategy = strat_name s, side = position_side,
                                  entry_price = avg_fill_price, status = ''open'', pnl = 0,
                                  quantity = executed_qty os, entry_id = order_id os\<rparr>
                           in Inr (s2\<lparr>trades := trades s2 @ [new_trade]\<rparr>, c2))))))"

text \<open>
  One run of \<open>_check_order_status(order_id)\<close>, \<open>reply\<close> being what
  \<open>client.get_order_status\<close> returned: a filled order sets entry price and quantity of
  the first trade with that entry id.
\<close>

fun fill_first :: "string \<Rightarrow> order_status \<Rightarrow> trade list \<Rightarrow> trade list" where
  "fill_first oid os [] = []"
| "fill_first oid os (t # ts) =
     (if entry_id t = oid
      then t\<lparr>entry_price := Some (avg_price os), quantity := executed_qty os\<rparr> # ts
      else t # fill_first oid os ts)"

definition check_order_status :: "order_status option \<Rightarrow> string \<Rightarrow> strategy \<Rightarrow> strategy" where
  "check_order_status reply oid s =
     (case reply of
        None \<Rightarrow> s
      | Some os \<Rightarrow> if o_status os = ''filled'' then s\<lparr>trades := fill_first oid os (trades s)\<rparr>
                   else s)"

subsection \<open>Signals\<close>

text \<open>
  \<open>BreakoutStrategy._check_signal\<close>; \<open>self.candles[-1]\<close> and \<open>self.candles[-2]\<close> raise
  \<open>IndexError\<close> on a list of fewer than two candles.
\<close>

definition breakout_check_signal :: "real \<Rightarrow> candle list \<Rightarrow> py_error + int" where
  "breakout_check_signal min_volume cs =
     (if length cs < 2 then Inl IndexError
      else
        (let c1 = cs ! (length cs - 1); c2 = cs ! (length cs - 2) in
         if close c1 > high c2 \<and> volume c1 > min_volume then Inr 1
         else if close c1 < low c2 \<and> volume c1 > min_volume then Inr (- 1)
         else Inr 0))"

text \<open>
  \<open>TechnicalStrategy._check_signal\<close>. \<open>_macd()\<close> and \<open>_rsi()\<close> are computed by pandas,
  which is not part of the repository: what they return (or raise) for a candle list is
  the parameter \<open>ind\<close>.
\<close>

type_synonym indicators = "candle list \<Rightarrow> py_error + ((real \<times> real) \<times> real)"

definition technical_check_signal :: "indicators \<Rightarrow> candle list \<Rightarrow> py_error + int" where
  "technical_check_signal ind cs =
     (case ind cs of
        Inl e \<Rightarrow> Inl e
      | Inr ((macd_line, macd_signal), rsi) \<Rightarrow>
          if rsi < 30 \<and> macd_line > macd_signal then Inr 1
          else if rsi > 70 \<and> macd_line < macd_signal then Inr (- 1)
          else Inr 0)"

subsection \<open>\<open>check_trade\<close>\<close>

definition technical_check_trade ::
  "indicators \<Rightarrow> int \<Rightarrow> string option \<Rightarrow> strategy \<Rightarrow> client \<Rightarrow> py_error + (strategy \<times> client)" where
  "technical_check_trade ind now tick_type s c =
     (if tick_type = Some ''new_candle'' \<and> \<not> ongoing_position s then
        (case technical_check_signal ind (candles s) of
           Inl e \<Rightarrow> Inl e
         | Inr signal_result \<Rightarrow>
             if signal_result = 1 \<or> signal_result = - 1 then open_position now signal_result s c
             else Inr (s, c))
      else Inr (s, c))"

definition breakout_check_trade ::
  "real \<Rightarrow> int \<Rightarrow> string option \<Rightarrow> strategy \<Rightarrow> client \<Rightarrow> py_error + (strategy \<times> client)" where
  "breakout_check_trade min_volume now tick_type s c =
     (if \<not> ongoing_position s then
        (case breakout_check_signal min_volume (candles s) of
           Inl e \<Rightarrow> Inl e
         | Inr signal_result \<Rightarrow>
             if signal_result = 1 \<or> signal_result = - 1 then open_position now signal_result s c
             else Inr (s, c))
      else Inr (s, c))"

text \<open>The method the connector calls, dispatched on the class of the strategy.\<close>

definition check_trade ::
  "indicators \<Rightarrow> int \<Rightarrow> string option \<Rightarrow> strategy \<Rightarrow> client \<Rightarrow> py_error + (strategy \<times> client)" where
  "check_trade ind now tick_type s c =
     (case variant s of
        Technical _ _ _ _ \<Rightarrow> technical_check_trade ind now tick_type s c
      | Breakout min_volume \<Rightarrow> breakout_check_trade min_volume now tick_type s c)"

subsection \<open>The states a strategy instance can be in\<close>

text \<open>
  A strategy is created by its constructor, given the historical candles (an arbitrary
  list, \<open>strategy_component.py\<close> assigns \<open>new_strategy.candles\<close>), and from then on only
  changed by \<open>parse_trades\<close>, \<open>check_trade\<close> and the order-status timer, against any
  behaviour of the exchange. A call that raises leaves the strategy as it was.
\<close>

inductive reachable :: "strategy \<Rightarrow> bool" where
  created: "Strategy_init v k exch timeframe pct tp sl name = Inr s
              \<Longrightarrow> reachable (s\<lparr>candles := cs\<rparr>)"
| parsed: "reachable s \<Longrightarrow> parse_trades price sz ts s c = Inr (r, s', c') \<Longrightarrow> reachable s'"
| checked: "reachable s \<Longrightarrow> check_trade ind now tick_type s c = Inr (s', c') \<Longrightarrow> reachable s'"
| polled: "reachable s \<Longrightarrow> reachable (check_order_status reply oid s)"

definition open_trades :: "strategy \<Rightarrow> trade list" where
  "open_trades s = filter (\<lambda>t. status t = ''open'') (trades s)"


text \<open>
  The relation between the flag and the trades that the position lifecycle maintains.
\<close>

definition position_inv :: "strategy \<Rightarrow> bool" where
  "position_inv s \<longleftrightarrow> length (open_trades s) = (if ongoing_position s then 1 else 0)"




section \<open>Unrealised PnL (the price-update branch of \<open>_on_message\<close>)\<close>

text \<open>
  \<open>Contract.__init__\<close> for the exchange tag \<open>"bitmex"\<close>, from the fields of the
  instrument it reads: the multiplier is scaled by \<open>BITMEX_MULTIPLIER\<close> and, for an
  inverse contract, multiplied by -1.
\<close>

definition BITMEX_MULTIPLIER :: real where
  "BITMEX_MULTIPLIER = 1 / 100000000"

record bitmex_instrument =
  i_symbol :: string
  i_rootSymbol :: string
  i_quoteCurrency :: string
  i_tickSize :: real
  i_lotSize :: real
  i_isQuanto :: bool
  i_isInverse :: bool
  i_multiplier :: real

definition Contract_init_bitmex :: "bitmex_instrument \<Rightarrow> contract" where
  "Contract_init_bitmex info =
     (let m = i_multiplier info * BITMEX_MULTIPLIER in
      \<lparr>symbol = i_symbol info, base_asset = i_rootSymbol info,
       quote_asset = i_quoteCurrency info, tick_size = i_tickSize info,
       lot_size = i_lotSize info, quanto = i_isQuanto info, inverse = i_isInverse info,
       multiplier = (if i_isInverse info then m * (- 1) else m)\<rparr>)"

text \<open>
  Binance: the body of the loop over \<open>strat.trades\<close> for one trade, \<open>bid\<close> and \<open>ask\<close>
  being \<open>self.prices[symbol]['bid']\<close> and \<open>self.prices[symbol]['ask']\<close>.
\<close>

definition binance_trade_pnl :: "real \<Rightarrow> real \<Rightarrow> trade \<Rightarrow> trade" where
  "binance_trade_pnl bid ask t =
     (case entry_price t of
        None \<Rightarrow> t
      | Some e \<Rightarrow>
          if status t = ''open'' then
            (if side t = ''long'' then t\<lparr>pnl := (bid - e) * quantity t\<rparr>
             else if side t = ''short'' then t\<lparr>pnl := (e - ask) * quantity t\<rparr>
             else t)
          else t)"

text \<open>
  The \<open>bookTicker\<close> branch of \<open>BinanceClient._on_message\<close> for a decoded message with
  symbol \<open>symb\<close>, bid \<open>b\<close> and ask \<open>a\<close>: the price cache is updated, then every trade of
  every strategy on that symbol is revalued. \<open>self.strategies\<close> is a dict from an index
  to a strategy, iterated in insertion order.
\<close>

definition binance_on_bookTicker ::
  "string \<Rightarrow> real \<Rightarrow> real \<Rightarrow> (string \<rightharpoonup> real \<times> real) \<Rightarrow> (int \<times> strategy) list
     \<Rightarrow> (string \<rightharpoonup> real \<times> real) \<times> (int \<times> strategy) list" where
  "binance_on_bookTicker symb b a prices strategies =
     (prices(symb \<mapsto> (b, a)),
      map (\<lambda>(b_index, strat).
             (b_index,
              if symbol (contract strat) = symb
              then strat\<lparr>trades := map (binance_trade_pnl b a) (trades strat)\<rparr>
              else strat))
          strategies)"

text \<open>
  Bitmex: the body of the loop for one trade. The cached bid and ask are \<open>None\<close> until the
  exchange has sent them; arithmetic on \<open>None\<close> raises \<open>TypeError\<close>, a division by zero
  \<open>ZeroDivisionError\<close>, and only \<open>RuntimeError\<close> is caught around the loop.
\<close>

definition bitmex_trade_pnl :: "real option \<Rightarrow> real option \<Rightarrow> trade \<Rightarrow> py_error + trade" where
  "bitmex_trade_pnl bid ask t =
     (case entry_price t of
        None \<Rightarrow> Inr t
      | Some e \<Rightarrow>
          if status t = ''open'' then
            (let price = (if side t = ''long'' then bid else ask);
                 m = multiplier (t_contract t) in
             if inverse (t_contract t) then
               (if side t = ''long'' then
                  (if e = 0 then Inl ZeroDivisionError
                   else case price of
                          None \<Rightarrow> Inl TypeError
                        | Some p \<Rightarrow>
                            if p = 0 then Inl ZeroDivisionError
                            else Inr (t\<lparr>pnl := (1 / e - 1 / p) * m * quantity t\<rparr>))
                else if side t = ''short'' then
                  (case price of
                     None \<Rightarrow> Inl TypeError
                   | Some p \<Rightarrow>
                       if p = 0 \<or> e = 0 then Inl ZeroDivisionError
                       else Inr (t\<lparr>pnl := (1 / p - 1 / e) * m * quantity t\<rparr>))
                else Inr t)
             else
               (if side t = ''long'' then
                  (case price of
                     None \<Rightarrow> Inl TypeError
                   | Some p \<Rightarrow> Inr (t\<lparr>pnl := (p - e) * m * quantity t\<rparr>))
                else if side t = ''short'' then
                  (case price of
                     None \<Rightarrow> Inl TypeError
                   | Some p \<Rightarrow> Inr (t\<lparr>pnl := (e - p) * m * quantity t\<rparr>))
                else Inr t))
          else Inr t)"

text \<open>A loop whose body may raise: the first exception ends it.\<close>

fun map_err :: "('a \<Rightarrow> py_error + 'b) \<Rightarrow> 'a list \<Rightarrow> py_error + 'b list" where
  "map_err f [] = Inr []"
| "map_err f (x # xs) =
     (case f x of
        Inl e \<Rightarrow> Inl e
      | Inr y \<Rightarrow> (case map_err f xs of Inl e \<Rightarrow> Inl e | Inr ys \<Rightarrow> Inr (y # ys)))"

text \<open>
  The \<open>instrument\<close> branch of \<open>BitmexClient._on_message\<close> for one row \<open>d\<close> of the message:
  \<open>bidPrice\<close> and \<open>askPrice\<close> are \<open>None\<close> when the key is absent from the row, else the
  value sent (JSON \<open>null\<close> being \<open>Some None\<close>). The result is the exception that leaves
  the handler, or the new price cache and strategies.
\<close>

definition bitmex_on_instrument ::
  "string \<Rightarrow> real option option \<Rightarrow> real option option
     \<Rightarrow> (string \<rightharpoonup> real option \<times> real option) \<Rightarrow> (int \<times> strategy) list
     \<Rightarrow> py_error + ((string \<rightharpoonup> real option \<times> real option) \<times> (int \<times> strategy) list)" where
  "bitmex_on_instrument symb bidPrice askPrice prices strategies =
     (let (bid0, ask0) = (case prices symb of None \<Rightarrow> (None, None) | Some p \<Rightarrow> p);
          bid = (case bidPrice of None \<Rightarrow> bid0 | Some v \<Rightarrow> v);
          ask = (case askPrice of None \<Rightarrow> ask0 | Some v \<Rightarrow> v);
          prices1 = prices(symb \<mapsto> (bid, ask))
      in case map_err (\<lambda>(b_index, strat).
                  if symbol (contract strat) = symb then
                    (case map_err (bitmex_trade_pnl bid ask) (trades strat) of
                       Inl e \<Rightarrow> Inl e
                     | Inr ts \<Rightarrow> Inr (b_index, strat\<lparr>trades := ts\<rparr>))
                  else Inr (b_index, strat)) strategies of
           Inl e \<Rightarrow> Inl e
         | Inr strategies1 \<Rightarrow> Inr (prices1, strategies1))"


section \<open>The REST wrapper (\<open>_make_request\<close> of the two connectors)\<close>

text \<open>
  What one call of \<open>requests.get\<close>, \<open>requests.post\<close> or \<open>requests.delete\<close> does: it
  raises (a connection error), or it returns a response with a status code and a body.
  \<open>response.json()\<close> decodes the body and raises when the body is not JSON; the decoded
  body is \<open>None\<close> in that case. \<open>net n\<close> is the outcome of the \<open>n\<close>-th HTTP request of
  the client, \<open>sent\<close> the requests issued so far, \<open>error_log\<close> the \<open>logger.error\<close> calls.
\<close>

datatype 'j http_outcome = Raises | Response int "'j option"

datatype 'j rest_log = Connection_error string string | Request_error string string 'j int

record ('d, 'j) rest =
  net :: "nat \<Rightarrow> 'j http_outcome"
  sent :: "(string \<times> string \<times> 'd) list"
  error_log :: "'j rest_log list"

definition http_request ::
  "string \<Rightarrow> string \<Rightarrow> 'd \<Rightarrow> ('d, 'j) rest \<Rightarrow> 'j http_outcome \<times> ('d, 'j) rest" where
  "http_request method endpoint data st =
     (net st (length (sent st)), st\<lparr>sent := sent st @ [(method, endpoint, data)]\<rparr>)"

text \<open>
  \<open>_make_request(method, endpoint, data)\<close>. The two connectors differ only in the headers
  they build first. The result is the returned value (\<open>None\<close> or the decoded body) or the
  exception that reaches the caller.
\<close>

definition make_request ::
  "string \<Rightarrow> string \<Rightarrow> 'd \<Rightarrow> ('d, 'j) rest \<Rightarrow> (py_error + 'j option) \<times> ('d, 'j) rest" where
  "make_request method endpoint data st =
     (case (if method = ''GET'' then Some (http_request method endpoint data st)
            else if method = ''POST'' then Some (http_request method endpoint data st)
            else if method = ''DELETE'' then Some (http_request method endpoint data st)
            else None) of
        None \<Rightarrow> (Inl ValueError, st)
      | Some (Raises, st1) \<Rightarrow>
          (Inr None, st1\<lparr>error_log := error_log st1 @ [Connection_error method endpoint]\<rparr>)
      | Some (Response status_code body, st1) \<Rightarrow>
          if status_code = 200 then
            (case body of
               None \<Rightarrow> (Inl JSONDecodeError, st1)
             | Some j \<Rightarrow> (Inr (Some j), st1))
          else
            (case body of
               None \<Rightarrow> (Inl JSONDecodeError, st1)
             | Some j \<Rightarrow>
                 (Inr None,
                  st1\<lparr>error_log := error_log st1 @ [Request_error method endpoint j status_code]\<rparr>)))"


section \<open>Websocket subscriptions (\<open>BinanceClient\<close>)\<close>

text \<open>
  The fields of the client that \<open>subscribe_channel\<close> and \<open>_on_open\<close> use. \<open>contracts\<close>
  is the list of contracts in the exchange's answer, from which \<open>get_contracts\<close> builds
  the dict \<open>self.contracts\<close> keyed by symbol; \<open>ws_sent\<close> records the messages handed to
  \<open>self.ws.send\<close>, oldest first (an exception of \<open>send\<close> is caught and only logged).
\<close>

record ws_message =
  m_method :: string
  m_params :: "string list"
  m_id :: nat

record binance_ws =
  contracts :: "contract list"
  ws_subscriptions :: "string \<rightharpoonup> string list"
  ws_id :: nat
  ws_sent :: "ws_message list"
  ws_connected :: bool

text \<open>
  \<open>self.contracts[key]\<close>: \<open>get_contracts\<close> stores each contract under its own symbol, a
  later one replacing an earlier one with the same symbol.
\<close>

definition contracts_lookup :: "contract list \<Rightarrow> string \<Rightarrow> contract option" where
  "contracts_lookup cs key =
     (case filter (\<lambda>k. symbol k = key) cs of [] \<Rightarrow> None | k # ks \<Rightarrow> Some (last (k # ks)))"

text \<open>\<open>str.lower()\<close> on the ASCII letters that symbols are made of.\<close>

definition lower_char :: "char \<Rightarrow> char" where
  "lower_char ch =
     (let n = (of_char ch :: nat) in if 65 \<le> n \<and> n \<le> 90 then char_of (n + 32) else ch)"

definition lower :: "string \<Rightarrow> string" where
  "lower s = map lower_char s"

definition topic :: "string \<Rightarrow> string \<Rightarrow> string" where
  "topic channel symb = lower symb @ ''@'' @ channel"

text \<open>
  The loop \<open>for contract in contracts\<close> of \<open>subscribe_channel\<close>: \<open>params\<close> is
  \<open>data['params']\<close> and \<open>subs\<close> the list \<open>self.ws_subscriptions[channel]\<close>.
\<close>

fun subscribe_params ::
  "contract list \<Rightarrow> string \<Rightarrow> bool \<Rightarrow> string list \<Rightarrow> string list \<Rightarrow> string list \<times> string list" where
  "subscribe_params [] channel reconnection params subs = (params, subs)"
| "subscribe_params (k # ks) channel reconnection params subs =
     (if symbol k \<notin> set subs \<or> reconnection then
        subscribe_params ks channel reconnection (params @ [topic channel (symbol k)])
          (if symbol k \<notin> set subs then subs @ [symbol k] else subs)
      else subscribe_params ks channel reconnection params subs)"

definition ws_send :: "string list \<Rightarrow> binance_ws \<Rightarrow> binance_ws" where
  "ws_send params w =
     w\<lparr>ws_sent := ws_sent w @ [\<lparr>m_method = ''SUBSCRIBE'', m_params = params, m_id = ws_id w\<rparr>],
       ws_id := ws_id w + 1\<rparr>"

text \<open>
  \<open>subscribe_channel(contracts, channel, reconnection)\<close>. A channel that is not a key
  of \<open>self.ws_subscriptions\<close> raises \<open>KeyError\<close> at the first contract, before any change.
  The warning for more than 200 contracts only writes to the process log.
\<close>

definition subscribe_channel ::
  "contract list \<Rightarrow> string \<Rightarrow> bool \<Rightarrow> binance_ws \<Rightarrow> py_error + binance_ws" where
  "subscribe_channel ks channel reconnection w =
     (if length ks = 0 then Inr (ws_send [channel] w)
      else
        (case ws_subscriptions w channel of
           None \<Rightarrow> Inl KeyError
         | Some subs \<Rightarrow>
             (let (params, subs1) = subscribe_params ks channel reconnection [] subs;
                  w1 = w\<lparr>ws_subscriptions := (ws_subscriptions w)(channel \<mapsto> subs1)\<rparr>
              in if length params = 0 then Inr w1 else Inr (ws_send params w1))))"

text \<open>
  The loop \<open>for symbol in self.ws_subscriptions[channel]\<close> of \<open>_on_open\<close>, by the index
  \<open>i\<close> of the list iterator, reading the list as it is at each step. The result is the
  exception that ended the loop, if any, and the client at that point. \<open>fuel\<close> bounds the
  number of iterations; the loop has ended when the result is not \<open>None\<close>.
\<close>

fun on_open_loop ::
  "nat \<Rightarrow> string \<Rightarrow> nat \<Rightarrow> binance_ws \<Rightarrow> (py_error option \<times> binance_ws) option" where
  "on_open_loop 0 channel i w = None"
| "on_open_loop (Suc fuel) channel i w =
     (case ws_subscriptions w channel of
        None \<Rightarrow> Some (Some KeyError, w)
      | Some subs \<Rightarrow>
          if i < length subs then
            (case contracts_lookup (contracts w) (subs ! i) of
               None \<Rightarrow> Some (Some KeyError, w)
             | Some k \<Rightarrow>
                 (case subscribe_channel [k] channel True w of
                    Inl e \<Rightarrow> Some (Some e, w)
                  | Inr w1 \<Rightarrow> on_open_loop fuel channel (Suc i) w1))
          else Some (None, w))"

text \<open>\<open>_on_open\<close>.\<close>

definition on_open :: "nat \<Rightarrow> binance_ws \<Rightarrow> (py_error option \<times> binance_ws) option" where
  "on_open fuel w =
     (case on_open_loop fuel ''bookTicker'' 0 (w\<lparr>ws_connected := True\<rparr>) of
        None \<Rightarrow> None
      | Some (Some e, w1) \<Rightarrow> Some (Some e, w1)
      | Some (None, w1) \<Rightarrow>
          (case on_open_loop fuel ''aggTrade'' 0 w1 of
             None \<Rightarrow> None
           | Some (Some e, w2) \<Rightarrow> Some (Some e, w2)
           | Some (None, w2) \<Rightarrow>
               (case ws_subscriptions w2 ''bookTicker'' of
                  None \<Rightarrow> Some (Some KeyError, w2)
                | Some subs \<Rightarrow>
                    if ''BTCUSDT'' \<notin> set subs then
                      (case contracts_lookup (contracts w2) ''BTCUSDT'' of
                         None \<Rightarrow> Some (Some KeyError, w2)
                       | Some k \<Rightarrow>
                           (case subscribe_channel [k] ''bookTicker'' False w2 of
                              Inl e \<Rightarrow> Some (Some e, w2)
                            | Inr w3 \<Rightarrow> Some (None, w3)))
                    else Some (None, w2))))"

text \<open>
  The subscription lists right after the constructor, and what holds of them from then
  on: both channels are keys, no list has a duplicate, and every recorded symbol is the
  symbol of a contract of the client.
\<close>

definition ws_inv :: "binance_ws \<Rightarrow> bool" where
  "ws_inv w \<longleftrightarrow>
     (\<exists>bt ag. ws_subscriptions w ''bookTicker'' = Some bt \<and>
              ws_subscriptions w ''aggTrade'' = Some ag \<and>
              distinct bt \<and> distinct ag \<and>
              (\<forall>s \<in> set (bt @ ag). contracts_lookup (contracts w) s \<noteq> None))"

text \<open>
  Re-asserting the symbols \<open>syms\<close> on a channel: one subscribe message per symbol, in
  order, each with the single topic of that symbol.
\<close>

definition reassert :: "string \<Rightarrow> string list \<Rightarrow> binance_ws \<Rightarrow> binance_ws" where
  "reassert channel syms w = fold (\<lambda>s. ws_send [topic channel s]) syms w"

text \<open>
  The websocket fields as \<open>BinanceClient.__init__\<close> sets them, and the clients that can
  be reached from there: by \<open>subscribe_channel\<close>, which the interface calls with
  contracts taken from \<open>self.contracts\<close>, and by \<open>_on_open\<close>.
\<close>

definition BinanceClient_ws_init :: "contract list \<Rightarrow> binance_ws" where
  "BinanceClient_ws_init cs = \<lparr>contracts = cs,
     ws_subscriptions = [''bookTicker'' \<mapsto> [], ''aggTrade'' \<mapsto> []],
     ws_id = 1, ws_sent = [], ws_connected = False\<rparr>"

inductive ws_reachable :: "binance_ws \<Rightarrow> bool" where
  constructed: "ws_reachable (BinanceClient_ws_init cs)"
| subscribed: "ws_reachable w \<Longrightarrow> \<forall>k \<in> set ks. contracts_lookup (contracts w) (symbol k) = Some k
      \<Longrightarrow> subscribe_channel ks channel r w = Inr w1 \<Longrightarrow> ws_reachable w1"
| opened: "ws_reachable w \<Longrightarrow> on_open fuel w = Some (err, w1) \<Longrightarrow> ws_reachable w1"


section \<open>Concrete instances\<close>

definition ex_contract :: contract where
  "ex_contract = \<lparr>symbol = ''BTCUSDT'', base_asset = ''BTC'', quote_asset = ''USDT'',
     tick_size = 1 / 100, lot_size = 1 / 100, quanto = False, inverse = False, multiplier = 1\<rparr>"

definition ex_client :: client where
  "ex_client = \<lparr>connector = Binance, platform = ''binance_futures'', futures = True,
     balances_reply = (\<lambda>n. [''USDT'' \<mapsto> \<lparr>wallet_balance = 1000, free = 1000\<rparr>]),
     balance_calls = 0,
     order_reply = (\<lambda>n. Some \<lparr>order_id = ''7'', o_status = ''filled'', avg_price = 100,
                                executed_qty = 1\<rparr>),
     orders = []\<rparr>"

definition ex_candle :: candle where
  "ex_candle = \<lparr>timestamp = 0, open_c = 100, high = 105, low = 95, close = 100, volume = 10\<rparr>"

definition ex_strategy :: strategy where
  "ex_strategy = \<lparr>variant = Breakout 5, contract = ex_contract, exchange = ''Binance'',
     tf = ''1m'', tf_equiv = 60000, balance_pct = 10, take_profit = Some 10,
     stop_loss = Some 5, strat_name = ''Breakout'', ongoing_position = False,
     candles = [ex_candle], trades = [], logs = []\<rparr>"



definition ex_candles2 :: "candle list" where
  "ex_candles2 = [ex_candle,
     \<lparr>timestamp = 60000, open_c = 100, high = 110, low = 100, close = 108, volume = 9\<rparr>]"

text \<open>A strategy with one filled long position at 100.\<close>

definition ex_trade :: trade where
  "ex_trade = \<lparr>time = 1, t_contract = ex_contract, t_strategy = ''Breakout'', side = ''long'',
     entry_price = Some 100, status = ''open'', pnl = 0, quantity = 1, entry_id = ''7''\<rparr>"

definition ex_open :: strategy where
  "ex_open = ex_strategy\<lparr>ongoing_position := True, candles := ex_candles2, trades := [ex_trade],
     logs := [Log_signal ''long'', Log_order_placed ''buy'' ''filled'']\<rparr>"



text \<open>
  A linear Bitmex contract (raw multiplier 100, so \<open>multiplier = 100 * 10^-8\<close>) and a
  long position of 2 contracts entered at 100.
\<close>

definition ex_linear :: contract where
  "ex_linear = Contract_init_bitmex
     \<lparr>i_symbol = ''XBTUSDT'', i_rootSymbol = ''XBT'', i_quoteCurrency = ''USDT'',
      i_tickSize = 1 / 2, i_lotSize = 100, i_isQuanto = False, i_isInverse = False,
      i_multiplier = 100\<rparr>"

definition ex_linear_trade :: trade where
  "ex_linear_trade = \<lparr>time = 1, t_contract = ex_linear, t_strategy = ''Breakout'',
     side = ''long'', entry_price = Some 100, status = ''open'', pnl = 0, quantity = 2,
     entry_id = ''7''\<rparr>"

text \<open>
  An inverse Bitmex contract whose raw multiplier \<open>10^10\<close> becomes \<open>-100\<close>, and a short
  position of one contract entered at 20000.
\<close>

definition ex_inverse :: contract where
  "ex_inverse = Contract_init_bitmex
     \<lparr>i_symbol = ''XBTUSD'', i_rootSymbol = ''XBT'', i_quoteCurrency = ''USD'',
      i_tickSize = 1 / 2, i_lotSize = 100, i_isQuanto = False, i_isInverse = True,
      i_multiplier = 10000000000\<rparr>"

definition ex_inverse_short :: trade where
  "ex_inverse_short = \<lparr>time = 1, t_contract = ex_inverse, t_strategy = ''Breakout'',
     side = ''short'', entry_price = Some 20000, status = ''open'', pnl = 0, quantity = 1,
     entry_id = ''8''\<rparr>"

text \<open>An exchange that answers every request with status 502 and a body that is not JSON.\<close>

definition ex_rest :: "(unit, string) rest" where
  "ex_rest = \<lparr>net = (\<lambda>n. Response 502 None), sent = [], error_log = []\<rparr>"

text \<open>A Binance client after the book ticker of BTCUSDT has been subscribed.\<close>

definition ex_ws :: binance_ws where
  "ex_ws = \<lparr>contracts = [ex_contract],
     ws_subscriptions = [''aggTrade'' \<mapsto> [], ''bookTicker'' \<mapsto> [''BTCUSDT'']],
     ws_id = 2,
     ws_sent = [\<lparr>m_method = ''SUBSCRIBE'', m_params = [''btcusdt@bookTicker''], m_id = 1\<rparr>],
     ws_connected = False\<rparr>"

text \<open>A Bitmex strategy holding the long position on the linear contract.\<close>

definition ex_bitmex_strategy :: strategy where
  "ex_bitmex_strategy = ex_strategy\<lparr>contract := ex_linear, exchange := ''Bitmex'',
     ongoing_position := True, trades := [ex_linear_trade]\<rparr>"

section \<open>Verified properties\<close>

subsection \<open>\<open>_check_tp_sl\<close> and the take-profit loop\<close>

lemma Strategy_init_tf_equiv:
  "Strategy_init v k exch timeframe pct tp sl name = Inr s \<Longrightarrow>
     tf_equiv s \<in> {60000, 300000, 900000, 1800000, 3600000, 14400000}"
  by (auto simp: Strategy_init_def TF_EQUIV_def split: if_splits)

lemma tp_sl_flags_total:
  "entry_price t = Some e \<Longrightarrow> \<exists>f. tp_sl_flags s t price = Inr f"
  by (auto simp: tp_sl_flags_def entry_times_def split: option.splits)

lemma clamp_quantity_shape:
  "\<exists>q n. clamp_quantity s c order_side t =
            (t\<lparr>quantity := q\<rparr>, c\<lparr>balance_calls := n\<rparr>)"
proof (cases "futures c")
  case True
  have "clamp_quantity s c order_side t = (t\<lparr>quantity := quantity t\<rparr>, c\<lparr>balance_calls := balance_calls c\<rparr>)"
    using True by (simp add: clamp_quantity_def)
  then show ?thesis by blast
next
  case False
  let ?c1 = "c\<lparr>balance_calls := Suc (balance_calls c)\<rparr>"
  have "clamp_quantity s c order_side t = (t, ?c1) \<or>
        clamp_quantity s c order_side t =
          (t\<lparr>quantity := min (free (the (balances_reply c (balance_calls c) (base_asset (contract s))))) (quantity t)\<rparr>, ?c1)"
    using False by (simp add: clamp_quantity_def get_balances_def split: option.splits)
  moreover have "t = t\<lparr>quantity := quantity t\<rparr>" by simp
  ultimately show ?thesis by metis
qed

lemma check_tp_sl_unfold:
  assumes "candles s \<noteq> []"
  shows "check_tp_sl i s c =
          (let t = trades s ! i; price = close (last (candles s)) in
           case tp_sl_flags s t price of
             Inl e \<Rightarrow> Inl e
           | Inr (tp_triggered, sl_triggered) \<Rightarrow>
               if tp_triggered \<or> sl_triggered then
                 (let s1 = add_log (Log_tp_sl sl_triggered price (entry_price t)) s;
                      order_side = (if side t = ''long'' then ''SELL'' else ''BUY'');
                      (t1, c1) = clamp_quantity s1 c order_side t;
                      s2 = s1\<lparr>trades := (trades s1)[i := t1]\<rparr>;
                      (order_status, c2) = place_order c1 (contract s2) ''MARKET'' (quantity t1) order_side
                  in case order_status of
                       None \<Rightarrow> Inr (s2, c2)
                     | Some _ \<Rightarrow>
                         Inr ((add_log Log_exit s2)
                                \<lparr>trades := (trades s2)[i := t1\<lparr>status := ''closed''\<rparr>],
                                 ongoing_position := False\<rparr>, c2))
               else Inr (s, c))"
proof -
  obtain x xs where "candles s = x # xs" using assms by (cases "candles s") auto
  then show ?thesis unfolding check_tp_sl_def by (simp only: list.case)
qed

lemma check_tp_sl_idle:
  assumes "candles s \<noteq> []"
    and "tp_sl_flags s (trades s ! i) (close (last (candles s))) = Inr (False, False)"
  shows "check_tp_sl i s c = Inr (s, c)"
  using assms(2) by (simp add: check_tp_sl_unfold[OF assms(1)])

lemma check_tp_sl_fire:
  assumes "candles s \<noteq> []"
    and "tp_sl_flags s (trades s ! i) (close (last (candles s))) = Inr (tp, sl)"
    and "tp \<or> sl"
    and "order_side = (if side (trades s ! i) = ''long'' then ''SELL'' else ''BUY'')"
    and "clamp_quantity (add_log (Log_tp_sl sl (close (last (candles s))) (entry_price (trades s ! i))) s)
           c order_side (trades s ! i) = (t1, c1)"
    and "req = \<lparr>r_symbol = symbol (contract s), r_type = ''MARKET'', r_quantity = quantity t1,
                 r_side = order_side\<rparr>"
  shows "check_tp_sl i s c =
          (case order_reply c1 (length (orders c1)) of
             None \<Rightarrow> Inr (s\<lparr>trades := (trades s)[i := t1],
                            logs := logs s @ [Log_tp_sl sl (close (last (candles s))) (entry_price (trades s ! i))]\<rparr>,
                          c1\<lparr>orders := orders c1 @ [req]\<rparr>)
           | Some _ \<Rightarrow> Inr (s\<lparr>trades := (trades s)[i := t1\<lparr>status := ''closed''\<rparr>],
                            logs := logs s @ [Log_tp_sl sl (close (last (candles s))) (entry_price (trades s ! i)), Log_exit],
                            ongoing_position := False\<rparr>,
                          c1\<lparr>orders := orders c1 @ [req]\<rparr>))"
  using assms(2-6)
  by (simp add: check_tp_sl_unfold[OF assms(1)] Let_def add_log_def place_order_def
      split: option.splits)

lemma check_tp_sl_frame:
  assumes "candles s \<noteq> []" "entry_price (trades s ! i) = Some e"
  shows "\<exists>tr lg op c'. check_tp_sl i s c =
           Inr (s\<lparr>trades := tr, logs := lg, ongoing_position := op\<rparr>, c') \<and> length tr = length (trades s)"
proof -
  let ?p = "close (last (candles s))"
  obtain tp sl where f: "tp_sl_flags s (trades s ! i) ?p = Inr (tp, sl)"
    using tp_sl_flags_total[OF assms(2)] by (metis surj_pair)
  show ?thesis
  proof (cases "tp \<or> sl")
    case False
    then have "check_tp_sl i s c = Inr (s, c)"
      using f check_tp_sl_idle[OF assms(1)] by simp
    moreover have "s = s\<lparr>trades := trades s, logs := logs s, ongoing_position := ongoing_position s\<rparr>" by simp
    ultimately show ?thesis by (metis (full_types))
  next
    case True
    obtain t1 c1 where cl: "clamp_quantity (add_log (Log_tp_sl sl ?p (entry_price (trades s ! i))) s)
           c (if side (trades s ! i) = ''long'' then ''SELL'' else ''BUY'') (trades s ! i) = (t1, c1)"
      by (metis surj_pair)
    note fire = check_tp_sl_fire[OF assms(1) f True refl cl refl]
    show ?thesis
    proof (cases "order_reply c1 (length (orders c1))")
      case None
      let ?lg = "logs s @ [Log_tp_sl sl ?p (entry_price (trades s ! i))]"
      have "check_tp_sl i s c =
              Inr (s\<lparr>trades := (trades s)[i := t1], logs := ?lg,
                     ongoing_position := ongoing_position s\<rparr>,
                   c1\<lparr>orders := orders c1 @ [\<lparr>r_symbol = symbol (contract s), r_type = ''MARKET'',
                      r_quantity = quantity t1,
                      r_side = (if side (trades s ! i) = ''long'' then ''SELL'' else ''BUY'')\<rparr>]\<rparr>)"
        using fire None by simp
      moreover have "length ((trades s)[i := t1]) = length (trades s)" by simp
      ultimately show ?thesis by blast
    next
      case (Some a)
      have "check_tp_sl i s c =
              Inr (s\<lparr>trades := (trades s)[i := t1\<lparr>status := ''closed''\<rparr>],
                     logs := logs s @ [Log_tp_sl sl ?p (entry_price (trades s ! i)), Log_exit],
                     ongoing_position := False\<rparr>,
                   c1\<lparr>orders := orders c1 @ [\<lparr>r_symbol = symbol (contract s), r_type = ''MARKET'',
                      r_quantity = quantity t1,
                      r_side = (if side (trades s ! i) = ''long'' then ''SELL'' else ''BUY'')\<rparr>]\<rparr>)"
        using fire Some by simp
      moreover have "length ((trades s)[i := t1\<lparr>status := ''closed''\<rparr>]) = length (trades s)" by simp
      ultimately show ?thesis by blast
    qed
  qed
qed

lemma tp_sl_loop_frame:
  assumes "candles s \<noteq> []"
  shows "\<exists>tr lg op c'. tp_sl_loop is s c =
           Inr (s\<lparr>trades := tr, logs := lg, ongoing_position := op\<rparr>, c') \<and> length tr = length (trades s)"
  using assms
proof (induction "is" arbitrary: s c)
  case Nil
  have "s = s\<lparr>trades := trades s, logs := logs s, ongoing_position := ongoing_position s\<rparr>" by simp
  then show ?case by (metis tp_sl_loop.simps(1))
next
  case (Cons i "is")
  show ?case
  proof (cases "status (trades s ! i) = ''open'' \<and> entry_price (trades s ! i) \<noteq> None")
    case False
    then have "tp_sl_loop (i # is) s c = tp_sl_loop is s c" by auto
    then show ?thesis using Cons.IH[OF Cons.prems] by simp
  next
    case True
    then obtain e where e: "entry_price (trades s ! i) = Some e" by auto
    obtain tr lg op c1 where st: "check_tp_sl i s c =
           Inr (s\<lparr>trades := tr, logs := lg, ongoing_position := op\<rparr>, c1)" "length tr = length (trades s)"
      using check_tp_sl_frame[OF Cons.prems e] by blast
    let ?s1 = "s\<lparr>trades := tr, logs := lg, ongoing_position := op\<rparr>"
    have ne: "candles ?s1 \<noteq> []" using Cons.prems by simp
    obtain tr' lg' op' c' where l: "tp_sl_loop is ?s1 c1 =
        Inr (?s1\<lparr>trades := tr', logs := lg', ongoing_position := op'\<rparr>, c')" "length tr' = length (trades ?s1)"
      using Cons.IH[OF ne] by blast
    have "tp_sl_loop (i # is) s c = tp_sl_loop is ?s1 c1" using True st by simp
    then have "tp_sl_loop (i # is) s c = Inr (s\<lparr>trades := tr', logs := lg', ongoing_position := op'\<rparr>, c')"
      using l by simp
    then show ?thesis using l(2) st(2) by auto
  qed
qed


subsection \<open>The branches of \<open>parse_trades\<close>\<close>

lemma missing_loop_flat:
  "missing_loop n w lc cs =
     (if n = 0 then lc else flat_candle lc w (n - 1), cs @ map (flat_candle lc w) [0..<n])"
proof (induction n arbitrary: lc cs)
  case 0
  then show ?case by simp
next
  case (Suc n)
  let ?new = "flat_candle lc w 0"
  have shift: "flat_candle ?new w j = flat_candle lc w (Suc j)" for j
    by (simp add: flat_candle_def algebra_simps)
  have "missing_loop (Suc n) w lc cs = missing_loop n w ?new (cs @ [?new])"
    by (simp add: flat_candle_def Let_def)
  also have "\<dots> = (if n = 0 then ?new else flat_candle ?new w (n - 1),
                    (cs @ [?new]) @ map (flat_candle ?new w) [0..<n])"
    by (rule Suc.IH)
  also have "map (flat_candle ?new w) [0..<n] = map (flat_candle lc w) [Suc 0..<Suc n]"
    by (simp add: shift map_Suc_upt[symmetric] del: upt_Suc)
  also have "(cs @ [?new]) @ map (flat_candle lc w) [Suc 0..<Suc n] = cs @ map (flat_candle lc w) [0..<Suc n]"
    by (simp add: upt_conv_Cons del: upt_Suc)
  also have "(if n = 0 then ?new else flat_candle ?new w (n - 1)) = flat_candle lc w n"
    by (cases n) (simp_all add: shift)
  finally show ?case by simp
qed

lemma py_int_truediv_pos:
  "0 < b \<Longrightarrow> 0 \<le> a \<Longrightarrow> py_int_truediv a b = Inr (a div b)"
  by (simp add: py_int_truediv_def sgn_if)

lemma list_case_nonempty:
  "xs \<noteq> [] \<Longrightarrow> (case xs of [] \<Rightarrow> a | y # ys \<Rightarrow> b) = b"
  by (cases xs) auto

lemma parse_trades_same:
  assumes "candles s \<noteq> []" and "ts < timestamp (last (candles s)) + tf_equiv s"
  shows "parse_trades price sz ts s c =
          (let last_candle = last (candles s);
               lc1 = last_candle\<lparr>close := price, volume := volume last_candle + sz\<rparr>;
               lc2 = (if price > high lc1 then lc1\<lparr>high := price\<rparr>
                      else if price < low lc1 then lc1\<lparr>low := price\<rparr> else lc1);
               s1 = s\<lparr>candles := butlast (candles s) @ [lc2]\<rparr>
           in case tp_sl_loop [0..<length (trades s1)] s1 c of
                Inl e \<Rightarrow> Inl e
              | Inr (s2, c2) \<Rightarrow> Inr (Some ''same_candle'', s2, c2))"
  unfolding parse_trades_def list_case_nonempty[OF assms(1)] using assms(2)
  by (simp only: Let_def if_True)

lemma parse_trades_missing:
  assumes "candles s \<noteq> []" and "\<not> ts < timestamp (last (candles s)) + tf_equiv s"
    and "timestamp (last (candles s)) + 2 * tf_equiv s \<le> ts"
  shows "parse_trades price sz ts s c =
          (case py_int_truediv (ts - timestamp (last (candles s))) (tf_equiv s) of
             Inl e \<Rightarrow> Inl e
           | Inr q \<Rightarrow>
               (let (lc, cs) = missing_loop (nat (q - 1)) (tf_equiv s) (last (candles s)) (candles s)
                in Inr (Some ''new_candle'',
                        s\<lparr>candles := cs @ [tick_candle (timestamp lc + tf_equiv s) price sz]\<rparr>, c)))"
  unfolding parse_trades_def list_case_nonempty[OF assms(1)] tick_candle_def using assms(2,3)
  by (simp only: Let_def if_True if_False)

lemma parse_trades_next:
  assumes "candles s \<noteq> []" and "\<not> ts < timestamp (last (candles s)) + tf_equiv s"
    and "\<not> timestamp (last (candles s)) + 2 * tf_equiv s \<le> ts"
  shows "parse_trades price sz ts s c =
          Inr (Some ''new_candle'',
               s\<lparr>candles := candles s @
                  [tick_candle (timestamp (last (candles s)) + tf_equiv s) price sz]\<rparr>, c)"
proof -
  have "timestamp (last (candles s)) + tf_equiv s \<le> ts" using assms(2) by simp
  then show ?thesis
    unfolding parse_trades_def list_case_nonempty[OF assms(1)] tick_candle_def using assms(2,3)
    by (simp only: Let_def if_True if_False)
qed


lemma parse_trades_same_step:
  assumes ne: "candles s \<noteq> []" and same: "ts < timestamp (last (candles s)) + tf_equiv s"
  shows "\<exists>tr lg op c'. parse_trades price sz ts s c =
           Inr (Some ''same_candle'',
                s\<lparr>candles := butlast (candles s) @
                     [let lc1 = last (candles s)\<lparr>close := price, volume := volume (last (candles s)) + sz\<rparr>
                      in if price > high lc1 then lc1\<lparr>high := price\<rparr>
                         else if price < low lc1 then lc1\<lparr>low := price\<rparr> else lc1],
                  trades := tr, logs := lg, ongoing_position := op\<rparr>, c')
           \<and> length tr = length (trades s)"
proof -
  let ?s1 = "s\<lparr>candles := butlast (candles s) @
        [let lc1 = last (candles s)\<lparr>close := price, volume := volume (last (candles s)) + sz\<rparr>
         in if price > high lc1 then lc1\<lparr>high := price\<rparr>
            else if price < low lc1 then lc1\<lparr>low := price\<rparr> else lc1]\<rparr>"
  have "candles ?s1 \<noteq> []" by simp
  from tp_sl_loop_frame[OF this, of "[0..<length (trades ?s1)]" c]
  obtain tr lg op c' where l: "tp_sl_loop [0..<length (trades ?s1)] ?s1 c =
      Inr (?s1\<lparr>trades := tr, logs := lg, ongoing_position := op\<rparr>, c')" "length tr = length (trades ?s1)"
    by blast
  have "parse_trades price sz ts s c = Inr (Some ''same_candle'', ?s1\<lparr>trades := tr, logs := lg, ongoing_position := op\<rparr>, c')"
    using l(1) by (simp add: parse_trades_same[OF ne same] Let_def)
  then show ?thesis using l(2) by auto
qed

lemma same_candle_wf:
  assumes "low lc \<le> high lc"
  shows "(let lc1 = lc\<lparr>close := price, volume := volume lc + sz\<rparr>
          in if price > high lc1 then lc1\<lparr>high := price\<rparr>
             else if price < low lc1 then lc1\<lparr>low := price\<rparr> else lc1) =
         lc\<lparr>close := price, volume := volume lc + sz, high := max (high lc) price,
            low := min (low lc) price\<rparr>"
  using assms by (auto simp: Let_def max_def min_def)



text \<open>
  \<open>parse_trades\<close> keeps the candle list well formed: the candles it appends have
  \<open>low = high\<close>, and the update of the last candle keeps \<open>low \<le> high\<close>. A candle
  with \<open>low > high\<close> can only come from the historical candles of the exchange.
\<close>

lemma parse_trades_well_formed:
  assumes wf: "\<forall>x \<in> set (candles s). low x \<le> high x"
    and p: "parse_trades price sz ts s c = Inr (r, s', c')"
  shows "\<forall>x \<in> set (candles s'). low x \<le> high x"
proof -
  have ne: "candles s \<noteq> []" using p by (auto simp: parse_trades_def)
  let ?T = "timestamp (last (candles s))" and ?W = "tf_equiv s"
  have lw: "low (last (candles s)) \<le> high (last (candles s))" using wf ne by simp
  have bl: "\<forall>x \<in> set (butlast (candles s)). low x \<le> high x"
    using wf by (meson in_set_butlastD)
  consider (same) "ts < ?T + ?W" | (gap) "\<not> ts < ?T + ?W" "?T + 2 * ?W \<le> ts"
    | (nxt) "\<not> ts < ?T + ?W" "\<not> ?T + 2 * ?W \<le> ts" by blast
  then show ?thesis
  proof cases
    case same
    from parse_trades_same_step[OF ne same, of price sz c] p
    have "candles s' = butlast (candles s) @
            [(last (candles s))\<lparr>close := price, volume := volume (last (candles s)) + sz,
               high := max (high (last (candles s))) price,
               low := min (low (last (candles s))) price\<rparr>]"
      unfolding same_candle_wf[OF lw] by auto
    then show ?thesis using bl lw by (auto simp: min_def max_def)
  next
    case gap
    obtain q where q: "py_int_truediv (ts - ?T) ?W = Inr q"
      using p by (auto simp: parse_trades_missing[OF ne gap] split: sum.splits)
    have "candles s' = (candles s @ map (flat_candle (last (candles s)) ?W) [0..<nat (q - 1)]) @
            [tick_candle (timestamp (if nat (q - 1) = 0 then last (candles s)
                else flat_candle (last (candles s)) ?W (nat (q - 1) - 1)) + ?W) price sz]"
      using p q by (auto simp: parse_trades_missing[OF ne gap] missing_loop_flat)
    then show ?thesis using wf by (auto simp: flat_candle_def tick_candle_def)
  next
    case nxt
    then have "candles s' = candles s @ [tick_candle (?T + ?W) price sz]"
      using p by (auto simp: parse_trades_next[OF ne nxt])
    then show ?thesis using wf by (auto simp: tick_candle_def)
  qed
qed

subsection \<open>Claims about the candle aggregator\<close>



text \<open>
  Claim C1. Let \<open>T\<close> be the bucket start of the last candle, \<open>W > 0\<close> the bucket width
  and \<open>k = floor((timestamp - T) / W) - 1\<close>. A tick with \<open>timestamp \<ge> T + 2W\<close> has
  \<open>k \<ge> 1\<close>, makes \<open>parse_trades\<close> return \<open>"new_candle"\<close>, and changes nothing but the
  candle list, which grows by exactly the \<open>k\<close> flat candles at \<open>T + W, ..., T + kW\<close>
  (open = high = low = close = the close of the previous last candle, volume 0), in
  order, followed by one candle at \<open>T + (k+1)W\<close> whose open, high, low and close are the
  tick price and whose volume is the tick size.
\<close>

theorem parse_trades_gap:
  fixes s :: strategy and T W k ts
  defines "T \<equiv> timestamp (last (candles s))"
    and "W \<equiv> tf_equiv s"
    and "k \<equiv> nat (\<lfloor>real_of_int (ts - timestamp (last (candles s))) / real_of_int (tf_equiv s)\<rfloor> - 1)"
  assumes nonempty: "candles s \<noteq> []"
    and width: "0 < tf_equiv s"
    and gap: "T + 2 * W \<le> ts"
  shows "1 \<le> k \<and>
         parse_trades price sz ts s c =
           Inr (Some ''new_candle'',
                s\<lparr>candles := candles s @ map (flat_candle (last (candles s)) W) [0..<k]
                                @ [tick_candle (T + (int k + 1) * W) price sz]\<rparr>, c)"
proof -
  have q: "\<lfloor>real_of_int (ts - T) / real_of_int W\<rfloor> = (ts - T) div W"
    by (rule floor_divide_of_int_eq)
  have "2 * W \<le> ts - T" using gap by simp
  then have "2 * W div W \<le> (ts - T) div W"
    using width unfolding W_def by (intro zdiv_mono1) auto
  then have two: "2 \<le> (ts - T) div W" using width by (simp add: W_def)
  have k: "int k = (ts - T) div W - 1" "1 \<le> k"
    using two q unfolding k_def T_def W_def by auto
  have nonneg: "0 \<le> ts - T" using gap width by (simp add: W_def)
  have d: "py_int_truediv (ts - T) W = Inr ((ts - T) div W)"
    using width nonneg by (simp add: py_int_truediv_pos W_def)
  have n: "nat ((ts - T) div W - 1) = k" using k by simp
  have br: "\<not> ts < T + W" using gap width by (simp add: W_def)
  have ts_new: "timestamp (flat_candle (last (candles s)) W (k - 1)) + W = T + (int k + 1) * W"
    using k(2) by (simp add: flat_candle_def T_def algebra_simps of_nat_diff)
  have "parse_trades price sz ts s c =
          Inr (Some ''new_candle'',
               s\<lparr>candles := (candles s @ map (flat_candle (last (candles s)) W) [0..<k])
                     @ [tick_candle (timestamp (flat_candle (last (candles s)) W (k - 1)) + W) price sz]\<rparr>, c)"
    using parse_trades_missing[OF nonempty br[unfolded T_def W_def] gap[unfolded T_def W_def], of price sz c]
      d n k(2)
    by (simp add: missing_loop_flat flip: T_def W_def)
  then show ?thesis using k(2) ts_new by simp
qed

theorem parse_trades_gap_witness:
  "parse_trades 7 1 180000 ex_strategy ex_client =
     Inr (Some ''new_candle'',
          ex_strategy\<lparr>candles :=
            [ex_candle,
             \<lparr>timestamp = 60000, open_c = 100, high = 100, low = 100, close = 100, volume = 0\<rparr>,
             \<lparr>timestamp = 120000, open_c = 100, high = 100, low = 100, close = 100, volume = 0\<rparr>,
             \<lparr>timestamp = 180000, open_c = 7, high = 7, low = 7, close = 7, volume = 1\<rparr>]\<rparr>,
          ex_client)"
proof -
  have ne: "candles ex_strategy \<noteq> []" by (simp add: ex_strategy_def)
  have w: "0 < tf_equiv ex_strategy" by (simp add: ex_strategy_def)
  have g: "timestamp (last (candles ex_strategy)) + 2 * tf_equiv ex_strategy \<le> 180000"
    by (simp add: ex_strategy_def ex_candle_def)
  have k: "nat (\<lfloor>real_of_int (180000 - timestamp (last (candles ex_strategy))) /
                 real_of_int (tf_equiv ex_strategy)\<rfloor> - 1) = 2"
    by (simp add: ex_strategy_def ex_candle_def)
  have u: "[0..<2] = [0, Suc 0]" by (simp add: numeral_2_eq_2)
  show ?thesis
    using parse_trades_gap[OF ne w g, of 7 1 ex_client] unfolding k
    by (simp add: u flat_candle_def tick_candle_def ex_strategy_def ex_candle_def)
qed




subsection \<open>Position lifecycle\<close>

lemma get_trade_size_cases:
  "(\<exists>e. get_trade_size c k price pct = Inl e) \<or> (\<exists>c1. get_trade_size c k price pct = Inr (None, c1)) \<or>
   (\<exists>z c1. get_trade_size c k price pct = Inr (Some z, c1))"
proof (cases "get_trade_size c k price pct")
  case (Inl a)
  then show ?thesis by simp
next
  case (Inr p)
  obtain z c1 where p: "p = (z, c1)" by (cases p) auto
  show ?thesis using Inr p by (cases z) auto
qed

lemma open_position_effect:
  assumes "open_position now sig s c = Inr (s', c')"
  shows "s' = s \<or> (\<exists>lg. s' = s\<lparr>logs := lg\<rparr>) \<or>
         (\<exists>lg t. s' = s\<lparr>logs := lg, ongoing_position := True, trades := trades s @ [t]\<rparr> \<and>
                 status t = ''open'')"
proof (cases "platform c = ''binance_spot'' \<and> sig = - 1")
  case True
  then show ?thesis using assms by (simp add: open_position_def)
next
  case False
  then obtain x xs where cs: "candles s = x # xs"
    using assms by (cases "candles s") (auto simp: open_position_def)
  let ?g = "get_trade_size c (contract s) (close (last (candles s))) (balance_pct s)"
  have unf: "open_position now sig s c =
     (case ?g of
                Inl e \<Rightarrow> Inl e
              | Inr (None, c1) \<Rightarrow> Inr (s, c1)
              | Inr (Some trade_size, c1) \<Rightarrow>
                  (let order_side = (if sig = 1 then ''buy'' else ''sell'');
                       position_side = (if sig = 1 then ''long'' else ''short'');
                       s1 = add_log (Log_signal position_side) s;
                       (order_status, c2) = place_order c1 (contract s) ''MARKET'' trade_size order_side
                   in case order_status of
                        None \<Rightarrow> Inr (s1, c2)
                      | Some os \<Rightarrow>
                          (let s2 = (add_log (Log_order_placed order_side (o_status os)) s1)
                                      \<lparr>ongoing_position := True\<rparr>;
                               avg_fill_price = (if o_status os = ''filled'' then Some (avg_price os)
                                                 else None);
                               new_trade = \<lparr>time = now, t_contract = contract s,
                                  t_strategy = strat_name s, side = position_side,
                                  entry_price = avg_fill_price, status = ''open'', pnl = 0,
                                  quantity = executed_qty os, entry_id = order_id os\<rparr>
                           in Inr (s2\<lparr>trades := trades s2 @ [new_trade]\<rparr>, c2))))"
    using False unfolding open_position_def cs[symmetric] by (simp only: cs list.case if_False)
  consider e where "?g = Inl e" | c1 where "?g = Inr (None, c1)" | z c1 where "?g = Inr (Some z, c1)"
    using get_trade_size_cases by blast
  then show ?thesis
  proof cases
    case 1
    then show ?thesis using assms unf by simp
  next
    case 2
    then show ?thesis using assms unf by simp
  next
    case 3
    show ?thesis
    proof (cases "order_reply c1 (length (orders c1))")
      case None
      then have "s' = s\<lparr>logs := logs s @ [Log_signal (if sig = 1 then ''long'' else ''short'')]\<rparr>"
        using assms unf 3 by (simp add: Let_def place_order_def add_log_def)
      then show ?thesis by blast
    next
      case (Some os)
      let ?t = "\<lparr>time = now, t_contract = contract s,
                  t_strategy = strat_name s, side = (if sig = 1 then ''long'' else ''short''),
                  entry_price = (if o_status os = ''filled'' then Some (avg_price os) else None),
                  status = ''open'', pnl = 0,
                  quantity = executed_qty os, entry_id = order_id os\<rparr>"
      have eq: "s' = s\<lparr>logs := logs s @ [Log_signal (if sig = 1 then ''long'' else ''short''),
                 Log_order_placed (if sig = 1 then ''buy'' else ''sell'') (o_status os)],
              ongoing_position := True,
              trades := trades s @ [?t]\<rparr>"
        using assms unf 3 Some by (simp add: Let_def place_order_def add_log_def)
      have st: "status ?t = ''open''" by simp
      from eq st show ?thesis by blast
    qed
  qed
qed

lemma check_tp_sl_effect:
  assumes "candles s \<noteq> []" "entry_price (trades s ! i) = Some e"
  shows "\<exists>q lg c'.
           check_tp_sl i s c = Inr (s, c) \<or>
           check_tp_sl i s c =
             Inr (s\<lparr>trades := (trades s)[i := (trades s ! i)\<lparr>quantity := q\<rparr>], logs := lg\<rparr>, c') \<or>
           check_tp_sl i s c =
             Inr (s\<lparr>trades := (trades s)[i := (trades s ! i)\<lparr>quantity := q, status := ''closed''\<rparr>],
                    logs := lg, ongoing_position := False\<rparr>, c')"
proof -
  let ?p = "close (last (candles s))"
  obtain tp sl where f: "tp_sl_flags s (trades s ! i) ?p = Inr (tp, sl)"
    using tp_sl_flags_total[OF assms(2)] by (metis surj_pair)
  show ?thesis
  proof (cases "tp \<or> sl")
    case False
    then have "check_tp_sl i s c = Inr (s, c)"
      using f check_tp_sl_idle[OF assms(1)] by simp
    then show ?thesis by blast
  next
    case True
    let ?s1 = "add_log (Log_tp_sl sl ?p (entry_price (trades s ! i))) s"
    let ?side = "if side (trades s ! i) = ''long'' then ''SELL'' else ''BUY''"
    obtain q n where cl: "clamp_quantity ?s1 c ?side (trades s ! i) =
        ((trades s ! i)\<lparr>quantity := q\<rparr>, c\<lparr>balance_calls := n\<rparr>)"
      using clamp_quantity_shape by blast
    note fire = check_tp_sl_fire[OF assms(1) f True refl cl refl]
    show ?thesis
    proof (cases "order_reply (c\<lparr>balance_calls := n\<rparr>) (length (orders (c\<lparr>balance_calls := n\<rparr>)))")
      case None
      then show ?thesis using fire by (simp only: option.case) blast
    next
      case (Some a)
      then show ?thesis using fire by (simp only: option.case) blast
    qed
  qed
qed

lemma filter_update_length:
  "i < length xs \<Longrightarrow>
     length (filter P (xs[i := y])) + (if P (xs ! i) then 1 else 0) =
     length (filter P xs) + (if P y then 1 else 0)"
proof (induction xs arbitrary: i)
  case Nil
  then show ?case by simp
next
  case (Cons x xs)
  then show ?case by (cases i) auto
qed

lemma check_tp_sl_inv:
  assumes "candles s \<noteq> []" "entry_price (trades s ! i) = Some e"
    and "status (trades s ! i) = ''open''" "i < length (trades s)" "position_inv s"
    and "check_tp_sl i s c = Inr (s', c')"
  shows "position_inv s' \<and> candles s' = candles s \<and> length (trades s') = length (trades s)"
proof -
  let ?t = "trades s ! i"
  have "?t \<in> set (open_trades s)"
    using assms(3,4) unfolding open_trades_def by simp
  then have ge: "1 \<le> length (open_trades s)"
    by (cases "open_trades s") auto
  then have on: "ongoing_position s" "length (open_trades s) = 1"
    using assms(5) unfolding position_inv_def by (auto split: if_splits)
  from check_tp_sl_effect[OF assms(1,2), of c] obtain q lg c1 where
    "check_tp_sl i s c = Inr (s, c) \<or>
     check_tp_sl i s c = Inr (s\<lparr>trades := (trades s)[i := ?t\<lparr>quantity := q\<rparr>], logs := lg\<rparr>, c1) \<or>
     check_tp_sl i s c = Inr (s\<lparr>trades := (trades s)[i := ?t\<lparr>quantity := q, status := ''closed''\<rparr>],
                    logs := lg, ongoing_position := False\<rparr>, c1)" by blast
  then consider (idle) "s' = s"
    | (failed) "s' = s\<lparr>trades := (trades s)[i := ?t\<lparr>quantity := q\<rparr>], logs := lg\<rparr>"
    | (closed) "s' = s\<lparr>trades := (trades s)[i := ?t\<lparr>quantity := q, status := ''closed''\<rparr>],
                    logs := lg, ongoing_position := False\<rparr>"
    using assms(6) by auto
  then show ?thesis
  proof cases
    case idle
    then show ?thesis using assms(5) by simp
  next
    case failed
    have "length (filter (\<lambda>t. status t = ''open'') ((trades s)[i := ?t\<lparr>quantity := q\<rparr>])) =
          length (filter (\<lambda>t. status t = ''open'') (trades s))"
      using filter_update_length[OF assms(4), of "\<lambda>t. status t = ''open''" "?t\<lparr>quantity := q\<rparr>"] assms(3)
      by simp
    then show ?thesis using assms(5) failed by (simp add: position_inv_def open_trades_def)
  next
    case closed
    have "length (filter (\<lambda>t. status t = ''open'') ((trades s)[i := ?t\<lparr>quantity := q, status := ''closed''\<rparr>])) + 1 =
          length (filter (\<lambda>t. status t = ''open'') (trades s))"
      using filter_update_length[OF assms(4), of "\<lambda>t. status t = ''open''" "?t\<lparr>quantity := q, status := ''closed''\<rparr>"] assms(3)
      by simp
    then show ?thesis using on closed by (simp add: position_inv_def open_trades_def)
  qed
qed

lemma tp_sl_loop_inv:
  assumes "candles s \<noteq> []" "position_inv s" "\<forall>i \<in> set is. i < length (trades s)"
    and "tp_sl_loop is s c = Inr (s', c')"
  shows "position_inv s'"
  using assms
proof (induction "is" arbitrary: s c)
  case Nil
  then show ?case by simp
next
  case (Cons i "is")
  show ?case
  proof (cases "status (trades s ! i) = ''open'' \<and> entry_price (trades s ! i) \<noteq> None")
    case False
    then have "tp_sl_loop is s c = Inr (s', c')" using Cons.prems(4) by auto
    then show ?thesis using Cons.IH[OF Cons.prems(1,2)] Cons.prems(3) by simp
  next
    case True
    then obtain e where e: "entry_price (trades s ! i) = Some e" by auto
    obtain s1 c1 where st: "check_tp_sl i s c = Inr (s1, c1)" "tp_sl_loop is s1 c1 = Inr (s', c')"
      using Cons.prems(4) True by (auto split: sum.splits)
    have i: "i < length (trades s)" using Cons.prems(3) by simp
    from check_tp_sl_inv[OF Cons.prems(1) e _ i Cons.prems(2) st(1)] True
    have 1: "position_inv s1" "candles s1 = candles s" "length (trades s1) = length (trades s)" by auto
    show ?thesis
      using Cons.IH[OF _ 1(1) _ st(2)] 1(2,3) Cons.prems(1,3) by simp
  qed
qed

lemma parse_trades_inv:
  assumes "position_inv s" "parse_trades price sz ts s c = Inr (r, s', c')"
  shows "position_inv s'"
proof -
  have ne: "candles s \<noteq> []" using assms(2) by (auto simp: parse_trades_def)
  let ?T = "timestamp (last (candles s))" and ?W = "tf_equiv s"
  consider (same) "ts < ?T + ?W" | (gap) "\<not> ts < ?T + ?W" "?T + 2 * ?W \<le> ts"
    | (nxt) "\<not> ts < ?T + ?W" "\<not> ?T + 2 * ?W \<le> ts" by blast
  then show ?thesis
  proof cases
    case same
    let ?s1 = "s\<lparr>candles := butlast (candles s) @
        [let lc1 = last (candles s)\<lparr>close := price, volume := volume (last (candles s)) + sz\<rparr>
         in if price > high lc1 then lc1\<lparr>high := price\<rparr>
            else if price < low lc1 then lc1\<lparr>low := price\<rparr> else lc1]\<rparr>"
    have l: "tp_sl_loop [0..<length (trades ?s1)] ?s1 c = Inr (s', c')"
      using assms(2) by (auto simp: parse_trades_same[OF ne same] Let_def split: sum.splits)
    have "position_inv ?s1" using assms(1) by (simp add: position_inv_def open_trades_def)
    then show ?thesis using tp_sl_loop_inv[OF _ _ _ l] by simp
  next
    case gap
    then have "\<exists>cs. s' = s\<lparr>candles := cs\<rparr>"
      using assms(2) by (auto simp: parse_trades_missing[OF ne gap] split: sum.splits prod.splits)
    then show ?thesis using assms(1) by (auto simp: position_inv_def open_trades_def)
  next
    case nxt
    then have "\<exists>cs. s' = s\<lparr>candles := cs\<rparr>"
      using assms(2) by (auto simp: parse_trades_next[OF ne nxt])
    then show ?thesis using assms(1) by (auto simp: position_inv_def open_trades_def)
  qed
qed

lemma open_position_inv:
  assumes "position_inv s" "\<not> ongoing_position s" "open_position now sig s c = Inr (s', c')"
  shows "position_inv s'"
proof -
  have z: "filter (\<lambda>t. status t = ''open'') (trades s) = []"
    using assms(1,2) by (simp add: position_inv_def open_trades_def)
  from open_position_effect[OF assms(3)]
  consider "s' = s" | lg where "s' = s\<lparr>logs := lg\<rparr>"
    | lg t where "s' = s\<lparr>logs := lg, ongoing_position := True, trades := trades s @ [t]\<rparr>"
                 "status t = ''open''" by blast
  then show ?thesis
  proof cases
    case 1
    then show ?thesis using assms(1) by simp
  next
    case 2
    then show ?thesis using assms(1) by (simp add: position_inv_def open_trades_def)
  next
    case 3
    then show ?thesis using z by (simp add: position_inv_def open_trades_def)
  qed
qed

lemma check_trade_ongoing:
  "ongoing_position s \<Longrightarrow> check_trade ind now tick_type s c = Inr (s, c)"
  by (simp add: check_trade_def technical_check_trade_def breakout_check_trade_def split: variant.splits)

lemma check_trade_inv:
  assumes "position_inv s" "check_trade ind now tick_type s c = Inr (s', c')"
  shows "position_inv s'"
proof (cases "ongoing_position s")
  case True
  then show ?thesis using assms check_trade_ongoing[OF True, of ind now tick_type c] by simp
next
  case False
  have "s' = s \<or> (\<exists>sig. open_position now sig s c = Inr (s', c'))"
    using assms(2) False
    by (auto simp: check_trade_def technical_check_trade_def breakout_check_trade_def
        split: variant.splits sum.splits if_splits)
  then show ?thesis using assms(1) open_position_inv[OF assms(1) False] by auto
qed

lemma fill_first_status: "map status (fill_first oid os ts) = map status ts"
  by (induction ts) auto

lemma filter_status: "map status xs = map status ys \<Longrightarrow>
   length (filter (\<lambda>t. status t = v) xs) = length (filter (\<lambda>t. status t = v) ys)"
proof (induction xs arbitrary: ys)
  case Nil
  then show ?case by simp
next
  case (Cons x xs)
  then show ?case by (cases ys) auto
qed

lemma check_order_status_inv:
  assumes "position_inv s"
  shows "position_inv (check_order_status reply oid s)"
proof -
  have keep: "length (open_trades (s\<lparr>trades := fill_first oid os (trades s)\<rparr>)) = length (open_trades s)" for os
    unfolding open_trades_def using filter_status[OF fill_first_status] by simp
  have "position_inv (s\<lparr>trades := fill_first oid os (trades s)\<rparr>)" for os
    using assms keep[of os] unfolding position_inv_def by simp
  then show ?thesis using assms
    by (cases reply) (simp_all add: check_order_status_def)
qed

lemma reachable_inv: "reachable s \<Longrightarrow> position_inv s"
proof (induction rule: reachable.induct)
  case (created v k exch timeframe pct tp sl name s cs)
  then show ?case
    by (auto simp: Strategy_init_def position_inv_def open_trades_def split: option.splits)
next
  case (parsed s price sz ts c r s' c')
  then show ?case using parse_trades_inv by blast
next
  case (checked s ind now tick_type c s' c')
  then show ?case using check_trade_inv by blast
next
  case (polled s reply oid)
  then show ?case using check_order_status_inv by blast
qed


subsection \<open>The bucket width of a strategy instance\<close>

text \<open>
  The width is set by the constructor and never changed: every reachable strategy has
  one of the six positive widths of \<open>TF_EQUIV\<close>, in milliseconds.
\<close>

lemma parse_trades_tf_equiv:
  assumes "parse_trades price sz ts s c = Inr (r, s', c')"
  shows "tf_equiv s' = tf_equiv s"
proof -
  have ne: "candles s \<noteq> []" using assms by (auto simp: parse_trades_def)
  let ?T = "timestamp (last (candles s))" and ?W = "tf_equiv s"
  consider (same) "ts < ?T + ?W" | (gap) "\<not> ts < ?T + ?W" "?T + 2 * ?W \<le> ts"
    | (nxt) "\<not> ts < ?T + ?W" "\<not> ?T + 2 * ?W \<le> ts" by blast
  then show ?thesis
  proof cases
    case same
    from parse_trades_same_step[OF ne same, of price sz c] assms show ?thesis by auto
  next
    case gap
    then have "\<exists>cs. s' = s\<lparr>candles := cs\<rparr>"
      using assms by (auto simp: parse_trades_missing[OF ne gap] split: sum.splits prod.splits)
    then show ?thesis by auto
  next
    case nxt
    then have "\<exists>cs. s' = s\<lparr>candles := cs\<rparr>"
      using assms by (auto simp: parse_trades_next[OF ne nxt])
    then show ?thesis by auto
  qed
qed

lemma check_trade_tf_equiv:
  assumes "check_trade ind now tick_type s c = Inr (s', c')"
  shows "tf_equiv s' = tf_equiv s"
proof -
  have "s' = s \<or> (\<exists>sig. open_position now sig s c = Inr (s', c'))"
    using assms
    by (auto simp: check_trade_def technical_check_trade_def breakout_check_trade_def
        split: variant.splits sum.splits if_splits)
  then show ?thesis using open_position_effect by fastforce
qed

lemma reachable_tf_equiv:
  "reachable s \<Longrightarrow> tf_equiv s \<in> {60000, 300000, 900000, 1800000, 3600000, 14400000}"
proof (induction rule: reachable.induct)
  case (created v k exch timeframe pct tp sl name s cs)
  then show ?case using Strategy_init_tf_equiv by fastforce
next
  case (parsed s price sz ts c r s' c')
  then show ?case using parse_trades_tf_equiv by metis
next
  case (checked s ind now tick_type c s' c')
  then show ?case using check_trade_tf_equiv by metis
next
  case (polled s reply oid)
  then show ?case by (simp add: check_order_status_def split: option.splits)
qed

subsection \<open>Claims about signals and the position lifecycle\<close>




text \<open>
  Claim C3. In every state a strategy instance can reach through \<open>parse_trades\<close>,
  \<open>check_trade\<close> and the order-status timer, whatever the exchange answers, at most one
  trade has status \<open>"open"\<close>, and the flag \<open>ongoing_position\<close> is set exactly when there
  is one. A call of \<open>check_trade\<close> while the flag is set returns with the strategy (its
  trades, its flag, its logs) and the connector (the orders submitted so far) unchanged,
  for either strategy class and any tick type.
\<close>

theorem one_open_trade:
  "(reachable s \<longrightarrow> length (open_trades s) \<le> 1 \<and> (ongoing_position s \<longleftrightarrow> length (open_trades s) = 1)) \<and>
   (ongoing_position s \<longrightarrow> check_trade ind now tick_type s c = Inr (s, c))"
  using reachable_inv[of s] check_trade_ongoing[of s ind now tick_type c]
  by (auto simp: position_inv_def split: if_splits)

lemma ex_open_step:
  "check_trade (\<lambda>_. Inl IndexError) 1 (Some ''new_candle'') (ex_strategy\<lparr>candles := ex_candles2\<rparr>) ex_client =
     Inr (ex_open, ex_client\<lparr>balance_calls := 1,
            orders := [\<lparr>r_symbol = ''BTCUSDT'', r_type = ''MARKET'', r_quantity = 93 / 100, r_side = ''buy''\<rparr>]\<rparr>)"
  by (simp add: check_trade_def breakout_check_trade_def breakout_check_signal_def open_position_def
      get_trade_size_def binance_get_trade_size_def get_balances_def place_order_def add_log_def
      py_round_ndigits_def py_round_def Let_def
      ex_strategy_def ex_candles2_def ex_candle_def ex_client_def ex_contract_def ex_open_def ex_trade_def)

lemma ex_open_reachable: "reachable ex_open"
proof -
  have init: "Strategy_init (Breakout 5) ex_contract ''Binance'' ''1m'' 10 (Some 10) (Some 5) ''Breakout''
                = Inr (ex_strategy\<lparr>candles := []\<rparr>)"
    by (simp add: Strategy_init_def TF_EQUIV_def ex_strategy_def)
  have "reachable ((ex_strategy\<lparr>candles := []\<rparr>)\<lparr>candles := ex_candles2\<rparr>)"
    by (rule reachable.created[OF init])
  then have "reachable (ex_strategy\<lparr>candles := ex_candles2\<rparr>)" by simp
  then show ?thesis using ex_open_step by (rule reachable.checked)
qed

theorem one_open_trade_witness:
  "reachable ex_open \<and> ongoing_position ex_open \<and> length (open_trades ex_open) = 1 \<and>
   check_trade (\<lambda>_. Inl IndexError) 2 (Some ''new_candle'') ex_open ex_client = Inr (ex_open, ex_client)"
  using one_open_trade[of ex_open "\<lambda>_. Inl IndexError" 2 "Some ''new_candle''" ex_client] ex_open_reachable
  by (simp add: ex_open_def)

subsection \<open>Take profit and stop loss on a tick\<close>










subsection \<open>Order sizing\<close>














subsection \<open>Unrealised PnL\<close>

lemma map_err_nth:
  "map_err f xs = Inr ys \<Longrightarrow>
     length ys = length xs \<and> (\<forall>n < length xs. f (xs ! n) = Inr (ys ! n))"
proof (induction xs arbitrary: ys)
  case Nil
  then show ?case by simp
next
  case (Cons x xs)
  from Cons.prems obtain y ys' where y: "f x = Inr y" "map_err f xs = Inr ys'" "ys = y # ys'"
    by (auto split: sum.splits)
  from Cons.IH[OF y(2)] have ih: "length ys' = length xs" "\<forall>n < length xs. f (xs ! n) = Inr (ys' ! n)"
    by auto
  show ?case
  proof (intro conjI allI impI)
    show "length ys = length (x # xs)" using y(3) ih(1) by simp
  next
    fix n assume "n < length (x # xs)"
    then show "f ((x # xs) ! n) = Inr (ys ! n)"
      using y ih(2) by (cases n) auto
  qed
qed

lemma bitmex_on_instrument_trades:
  assumes "bitmex_on_instrument symb bidPrice askPrice prices strategies = Inr (prices1, strategies1)"
  shows "\<exists>bid ask. prices1 symb = Some (bid, ask) \<and> length strategies1 = length strategies \<and>
           (\<forall>n < length strategies.
              symbol (contract (snd (strategies ! n))) = symb \<longrightarrow>
              length (trades (snd (strategies1 ! n))) = length (trades (snd (strategies ! n))) \<and>
              (\<forall>j < length (trades (snd (strategies ! n))).
                 bitmex_trade_pnl bid ask (trades (snd (strategies ! n)) ! j) =
                   Inr (trades (snd (strategies1 ! n)) ! j)))"
proof -
  obtain bid0 ask0 where p0: "(case prices symb of None \<Rightarrow> (None, None) | Some p \<Rightarrow> p) = (bid0, ask0)"
    by (metis surj_pair)
  define bid where "bid = (case bidPrice of None \<Rightarrow> bid0 | Some v \<Rightarrow> v)"
  define ask where "ask = (case askPrice of None \<Rightarrow> ask0 | Some v \<Rightarrow> v)"
  define body where "body = (\<lambda>(b_index :: int, strat :: strategy).
                  if symbol (contract strat) = symb then
                    (case map_err (bitmex_trade_pnl bid ask) (trades strat) of
                       Inl e \<Rightarrow> Inl e
                     | Inr ts \<Rightarrow> Inr (b_index, strat\<lparr>trades := ts\<rparr>))
                  else Inr (b_index, strat))"
  have unf: "bitmex_on_instrument symb bidPrice askPrice prices strategies =
      (case map_err body strategies of Inl e \<Rightarrow> Inl e
       | Inr strategies1 \<Rightarrow> Inr (prices(symb \<mapsto> (bid, ask)), strategies1))"
    unfolding bitmex_on_instrument_def p0 Let_def bid_def ask_def body_def by simp
  from assms unf have m: "map_err body strategies = Inr strategies1"
    and p: "prices1 = prices(symb \<mapsto> (bid, ask))"
    by (auto split: sum.splits)
  from map_err_nth[OF m] have len: "length strategies1 = length strategies"
    and each: "\<forall>n < length strategies. body (strategies ! n) = Inr (strategies1 ! n)" by auto
  have "length (trades (snd (strategies1 ! n))) = length (trades (snd (strategies ! n))) \<and>
        (\<forall>j < length (trades (snd (strategies ! n))).
                 bitmex_trade_pnl bid ask (trades (snd (strategies ! n)) ! j) =
                   Inr (trades (snd (strategies1 ! n)) ! j))"
    if n: "n < length strategies" and s: "symbol (contract (snd (strategies ! n))) = symb" for n
  proof -
    obtain idx strat where st: "strategies ! n = (idx, strat)" by (metis surj_pair)
    have "body (idx, strat) = Inr (strategies1 ! n)" using each n st by auto
    then obtain ts where ts: "map_err (bitmex_trade_pnl bid ask) (trades strat) = Inr ts"
      "strategies1 ! n = (idx, strat\<lparr>trades := ts\<rparr>)"
      using s st unfolding body_def by (auto split: sum.splits)
    from map_err_nth[OF ts(1)] show ?thesis using st ts(2) by simp
  qed
  then show ?thesis using p len by auto
qed

text \<open>
  Claim C6, as the code has it. For an open trade with entry price \<open>e\<close>: on Binance the
  PnL becomes \<open>(bid - e) * qty\<close> for a long and \<open>(e - ask) * qty\<close> for a short position.
  On Bitmex, with bid and ask known, an inverse contract gives
  \<open>(1/e - 1/bid) * multiplier * qty\<close> for a long and the mirrored
  \<open>(1/ask - 1/e) * multiplier * qty\<close> for a short position, and any other contract the
  linear difference TIMES THE MULTIPLIER, \<open>(bid - e) * multiplier * qty\<close> and
  \<open>(e - ask) * multiplier * qty\<close>. The multiplier of a Bitmex contract is the raw
  multiplier scaled by \<open>10^-8\<close>, negated at construction for an inverse contract. A
  Binance book-ticker message revalues in this way every trade of every strategy on
  its symbol, and so does a Bitmex instrument row whose handling raises no exception.
\<close>

theorem unrealized_pnl:
  assumes "status t = ''open''" and "entry_price t = Some e"
  shows "(side t = ''long'' \<longrightarrow> binance_trade_pnl bid ask t = t\<lparr>pnl := (bid - e) * quantity t\<rparr>) \<and>
         (side t = ''short'' \<longrightarrow> binance_trade_pnl bid ask t = t\<lparr>pnl := (e - ask) * quantity t\<rparr>) \<and>
         (inverse (t_contract t) \<and> side t = ''long'' \<and> e \<noteq> 0 \<and> bid \<noteq> 0 \<longrightarrow>
            bitmex_trade_pnl (Some bid) (Some ask) t =
              Inr (t\<lparr>pnl := (1 / e - 1 / bid) * multiplier (t_contract t) * quantity t\<rparr>)) \<and>
         (inverse (t_contract t) \<and> side t = ''short'' \<and> e \<noteq> 0 \<and> ask \<noteq> 0 \<longrightarrow>
            bitmex_trade_pnl (Some bid) (Some ask) t =
              Inr (t\<lparr>pnl := (1 / ask - 1 / e) * multiplier (t_contract t) * quantity t\<rparr>)) \<and>
         (\<not> inverse (t_contract t) \<and> side t = ''long'' \<longrightarrow>
            bitmex_trade_pnl (Some bid) (Some ask) t =
              Inr (t\<lparr>pnl := (bid - e) * multiplier (t_contract t) * quantity t\<rparr>)) \<and>
         (\<not> inverse (t_contract t) \<and> side t = ''short'' \<longrightarrow>
            bitmex_trade_pnl (Some bid) (Some ask) t =
              Inr (t\<lparr>pnl := (e - ask) * multiplier (t_contract t) * quantity t\<rparr>)) \<and>
         multiplier (Contract_init_bitmex info) =
           (if i_isInverse info then - (i_multiplier info * BITMEX_MULTIPLIER)
            else i_multiplier info * BITMEX_MULTIPLIER) \<and>
         (\<forall>n < length strategies.
            fst (snd (binance_on_bookTicker symb bid ask prices strategies) ! n) = fst (strategies ! n) \<and>
            snd (snd (binance_on_bookTicker symb bid ask prices strategies) ! n) =
              (if symbol (contract (snd (strategies ! n))) = symb
               then (snd (strategies ! n))\<lparr>trades :=
                      map (binance_trade_pnl bid ask) (trades (snd (strategies ! n)))\<rparr>
               else snd (strategies ! n))) \<and>
         (bitmex_on_instrument symb bidPrice askPrice bprices strategies = Inr (new_prices, new_strategies) \<longrightarrow>
            (\<exists>b a. new_prices symb = Some (b, a) \<and> length new_strategies = length strategies \<and>
               (\<forall>n < length strategies.
                  symbol (contract (snd (strategies ! n))) = symb \<longrightarrow>
                  length (trades (snd (new_strategies ! n))) = length (trades (snd (strategies ! n))) \<and>
                  (\<forall>j < length (trades (snd (strategies ! n))).
                     bitmex_trade_pnl b a (trades (snd (strategies ! n)) ! j) =
                       Inr (trades (snd (new_strategies ! n)) ! j)))))"
proof -
  have trade_level:
    "(side t = ''long'' \<longrightarrow> binance_trade_pnl bid ask t = t\<lparr>pnl := (bid - e) * quantity t\<rparr>) \<and>
         (side t = ''short'' \<longrightarrow> binance_trade_pnl bid ask t = t\<lparr>pnl := (e - ask) * quantity t\<rparr>) \<and>
         (inverse (t_contract t) \<and> side t = ''long'' \<and> e \<noteq> 0 \<and> bid \<noteq> 0 \<longrightarrow>
            bitmex_trade_pnl (Some bid) (Some ask) t =
              Inr (t\<lparr>pnl := (1 / e - 1 / bid) * multiplier (t_contract t) * quantity t\<rparr>)) \<and>
         (inverse (t_contract t) \<and> side t = ''short'' \<and> e \<noteq> 0 \<and> ask \<noteq> 0 \<longrightarrow>
            bitmex_trade_pnl (Some bid) (Some ask) t =
              Inr (t\<lparr>pnl := (1 / ask - 1 / e) * multiplier (t_contract t) * quantity t\<rparr>)) \<and>
         (\<not> inverse (t_contract t) \<and> side t = ''long'' \<longrightarrow>
            bitmex_trade_pnl (Some bid) (Some ask) t =
              Inr (t\<lparr>pnl := (bid - e) * multiplier (t_contract t) * quantity t\<rparr>)) \<and>
         (\<not> inverse (t_contract t) \<and> side t = ''short'' \<longrightarrow>
            bitmex_trade_pnl (Some bid) (Some ask) t =
              Inr (t\<lparr>pnl := (e - ask) * multiplier (t_contract t) * quantity t\<rparr>))"
    using assms by (auto simp: binance_trade_pnl_def bitmex_trade_pnl_def Let_def)
  have mult: "multiplier (Contract_init_bitmex info) =
           (if i_isInverse info then - (i_multiplier info * BITMEX_MULTIPLIER)
            else i_multiplier info * BITMEX_MULTIPLIER)"
    by (simp add: Contract_init_bitmex_def Let_def)
  have binance_msg: "\<forall>n < length strategies.
            fst (snd (binance_on_bookTicker symb bid ask prices strategies) ! n) = fst (strategies ! n) \<and>
            snd (snd (binance_on_bookTicker symb bid ask prices strategies) ! n) =
              (if symbol (contract (snd (strategies ! n))) = symb
               then (snd (strategies ! n))\<lparr>trades :=
                      map (binance_trade_pnl bid ask) (trades (snd (strategies ! n)))\<rparr>
               else snd (strategies ! n))"
    by (auto simp: binance_on_bookTicker_def split: prod.splits)
  show ?thesis
    using trade_level mult binance_msg
      bitmex_on_instrument_trades[of symb bidPrice askPrice bprices strategies new_prices new_strategies]
    by blast
qed

lemma ex_instrument_row:
  "bitmex_on_instrument ''XBTUSDT'' (Some (Some 110)) (Some (Some 111)) Map.empty
       [(0, ex_bitmex_strategy)] =
     Inr ([''XBTUSDT'' \<mapsto> (Some 110, Some 111)],
          [(0, ex_bitmex_strategy\<lparr>trades := [ex_linear_trade\<lparr>pnl := 1 / 50000\<rparr>]\<rparr>)])"
proof -
  have t: "bitmex_trade_pnl (Some 110) (Some 111) ex_linear_trade =
             Inr (ex_linear_trade\<lparr>pnl := 1 / 50000\<rparr>)"
    by (simp add: bitmex_trade_pnl_def ex_linear_trade_def ex_linear_def Contract_init_bitmex_def
        BITMEX_MULTIPLIER_def)
  have s: "symbol (contract ex_bitmex_strategy) = ''XBTUSDT''"
    "trades ex_bitmex_strategy = [ex_linear_trade]"
    by (simp_all add: ex_bitmex_strategy_def ex_linear_def Contract_init_bitmex_def)
  show ?thesis by (simp add: bitmex_on_instrument_def s t)
qed

theorem unrealized_pnl_witness:
  "binance_trade_pnl 110 111 ex_trade = ex_trade\<lparr>pnl := 10\<rparr> \<and>
   bitmex_trade_pnl (Some 110) (Some 111) ex_linear_trade = Inr (ex_linear_trade\<lparr>pnl := 1 / 50000\<rparr>) \<and>
   bitmex_trade_pnl (Some 110) (Some 111) (ex_linear_trade\<lparr>side := ''short''\<rparr>) =
     Inr (ex_linear_trade\<lparr>side := ''short'', pnl := (100 - 111) * (1 / 1000000) * 2\<rparr>) \<and>
   binance_trade_pnl 18999 19000 ex_inverse_short = ex_inverse_short\<lparr>pnl := 1000\<rparr> \<and>
   bitmex_trade_pnl (Some 18999) (Some 19000) ex_inverse_short =
     Inr (ex_inverse_short\<lparr>pnl := (1 / 19000 - 1 / 20000) * (- 100) * 1\<rparr>) \<and>
   bitmex_trade_pnl (Some 18999) (Some 19000) (ex_inverse_short\<lparr>side := ''long''\<rparr>) =
     Inr (ex_inverse_short\<lparr>side := ''long'', pnl := (1 / 20000 - 1 / 18999) * (- 100) * 1\<rparr>) \<and>
   multiplier ex_inverse = - 100 \<and>
   snd (binance_on_bookTicker ''BTCUSDT'' 110 111 Map.empty [(0, ex_open)]) =
     [(0, ex_open\<lparr>trades := [ex_trade\<lparr>pnl := 10\<rparr>]\<rparr>)] \<and>
   (\<exists>b a. [''XBTUSDT'' \<mapsto> (Some (110::real), Some (111::real))] ''XBTUSDT'' = Some (b, a) \<and>
      bitmex_trade_pnl b a ex_linear_trade = Inr (ex_linear_trade\<lparr>pnl := 1 / 50000\<rparr>))"
proof -
  have a: "status ex_trade = ''open''" "entry_price ex_trade = Some 100" "side ex_trade = ''long''"
    "quantity ex_trade = 1"
    by (simp_all add: ex_trade_def)
  have b: "status ex_linear_trade = ''open''" "entry_price ex_linear_trade = Some 100"
    "side ex_linear_trade = ''long''" "\<not> inverse (t_contract ex_linear_trade)"
    "multiplier (t_contract ex_linear_trade) = 1 / 1000000" "quantity ex_linear_trade = 2"
    by (simp_all add: ex_linear_trade_def ex_linear_def Contract_init_bitmex_def BITMEX_MULTIPLIER_def)
  have c: "status ex_inverse_short = ''open''" "entry_price ex_inverse_short = Some 20000"
    "side ex_inverse_short = ''short''" "inverse (t_contract ex_inverse_short)"
    "multiplier (t_contract ex_inverse_short) = - 100" "quantity ex_inverse_short = 1"
    by (simp_all add: ex_inverse_short_def ex_inverse_def Contract_init_bitmex_def BITMEX_MULTIPLIER_def)
  have d: "symbol (contract ex_open) = ''BTCUSDT''" "trades ex_open = [ex_trade]"
    by (simp_all add: ex_open_def ex_strategy_def ex_contract_def)
  have 1: "binance_trade_pnl 110 111 ex_trade = ex_trade\<lparr>pnl := 10\<rparr>"
    using unrealized_pnl[OF a(1,2), of 110 111] by (simp add: a)
  have 2: "bitmex_trade_pnl (Some 110) (Some 111) ex_linear_trade =
             Inr (ex_linear_trade\<lparr>pnl := 1 / 50000\<rparr>)"
    using unrealized_pnl[OF b(1,2), of 110 111] by (simp add: b)
  have s2: "bitmex_trade_pnl (Some 110) (Some 111) (ex_linear_trade\<lparr>side := ''short''\<rparr>) =
     Inr (ex_linear_trade\<lparr>side := ''short'', pnl := (100 - 111) * (1 / 1000000) * 2\<rparr>)"
    using unrealized_pnl[of "ex_linear_trade\<lparr>side := ''short''\<rparr>" 100 110 111] by (simp add: b)
  have 3: "binance_trade_pnl 18999 19000 ex_inverse_short = ex_inverse_short\<lparr>pnl := 1000\<rparr>"
    using unrealized_pnl[OF c(1,2), of 18999 19000] by (simp add: c)
  have 4: "bitmex_trade_pnl (Some 18999) (Some 19000) ex_inverse_short =
     Inr (ex_inverse_short\<lparr>pnl := (1 / 19000 - 1 / 20000) * (- 100) * 1\<rparr>)"
    using unrealized_pnl[OF c(1,2), of 18999 19000] by (simp add: c)
  have s4: "bitmex_trade_pnl (Some 18999) (Some 19000) (ex_inverse_short\<lparr>side := ''long''\<rparr>) =
     Inr (ex_inverse_short\<lparr>side := ''long'', pnl := (1 / 20000 - 1 / 18999) * (- 100) * 1\<rparr>)"
    using unrealized_pnl[of "ex_inverse_short\<lparr>side := ''long''\<rparr>" 20000 18999 19000] by (simp add: c)
  have 5: "multiplier ex_inverse = - 100"
    using c(5) by (simp add: ex_inverse_short_def)
  have "snd (snd (binance_on_bookTicker ''BTCUSDT'' 110 111 Map.empty [(0, ex_open)]) ! 0) =
          ex_open\<lparr>trades := [ex_trade\<lparr>pnl := 10\<rparr>]\<rparr> \<and>
        fst (snd (binance_on_bookTicker ''BTCUSDT'' 110 111 Map.empty [(0, ex_open)]) ! 0) = 0"
    using unrealized_pnl[OF a(1,2), of 110 111 _ "[(0, ex_open)]" "''BTCUSDT''" Map.empty] 1
    by (simp add: d)
  moreover have "length (snd (binance_on_bookTicker ''BTCUSDT'' 110 111 Map.empty [(0, ex_open)])) = 1"
    by (simp add: binance_on_bookTicker_def)
  ultimately have 6: "snd (binance_on_bookTicker ''BTCUSDT'' 110 111 Map.empty [(0, ex_open)]) =
     [(0, ex_open\<lparr>trades := [ex_trade\<lparr>pnl := 10\<rparr>]\<rparr>)]"
    by (cases "snd (binance_on_bookTicker ''BTCUSDT'' 110 111 Map.empty [(0, ex_open)])") auto
  have e: "symbol (contract (snd ([(0::int, ex_bitmex_strategy)] ! 0))) = ''XBTUSDT''"
    "trades (snd ([(0::int, ex_bitmex_strategy)] ! 0)) ! 0 = ex_linear_trade"
    "length (trades (snd ([(0::int, ex_bitmex_strategy)] ! 0))) = 1"
    by (simp_all add: ex_bitmex_strategy_def ex_linear_def Contract_init_bitmex_def)
  note row = unrealized_pnl[OF a(1,2), where strategies = "[(0, ex_bitmex_strategy)]"
      and symb = "''XBTUSDT''" and bidPrice = "Some (Some 110)" and askPrice = "Some (Some 111)"
      and bprices = Map.empty and new_prices = "[''XBTUSDT'' \<mapsto> (Some 110, Some 111)]"
      and new_strategies = "[(0, ex_bitmex_strategy\<lparr>trades := [ex_linear_trade\<lparr>pnl := 1 / 50000\<rparr>]\<rparr>)]",
      THEN conjunct2, THEN conjunct2, THEN conjunct2, THEN conjunct2, THEN conjunct2,
      THEN conjunct2, THEN conjunct2, THEN conjunct2]
  from mp[OF row ex_instrument_row]
  obtain b' a' where 7: "[''XBTUSDT'' \<mapsto> (Some (110::real), Some (111::real))] ''XBTUSDT'' = Some (b', a')"
    "\<forall>n < length [(0::int, ex_bitmex_strategy)].
                  symbol (contract (snd ([(0::int, ex_bitmex_strategy)] ! n))) = ''XBTUSDT'' \<longrightarrow>
                  length (trades (snd ([(0::int, ex_bitmex_strategy\<lparr>trades := [ex_linear_trade\<lparr>pnl := 1 / 50000\<rparr>]\<rparr>)] ! n))) =
                    length (trades (snd ([(0::int, ex_bitmex_strategy)] ! n))) \<and>
                  (\<forall>j < length (trades (snd ([(0::int, ex_bitmex_strategy)] ! n))).
                     bitmex_trade_pnl b' a' (trades (snd ([(0::int, ex_bitmex_strategy)] ! n)) ! j) =
                       Inr (trades (snd ([(0::int, ex_bitmex_strategy\<lparr>trades := [ex_linear_trade\<lparr>pnl := 1 / 50000\<rparr>]\<rparr>)] ! n)) ! j))"
    by (elim exE conjE)
  have z: "(0::nat) < length [(0::int, ex_bitmex_strategy)]" by simp
  from 7(2)[THEN spec, of 0, THEN mp, OF z, THEN mp, OF e(1), THEN conjunct2, THEN spec, of 0]
  have "bitmex_trade_pnl b' a' ex_linear_trade = Inr (ex_linear_trade\<lparr>pnl := 1 / 50000\<rparr>)"
    using e(2,3) by (cases "trades ex_bitmex_strategy") auto
  with 7(1) have 8: "\<exists>b a. [''XBTUSDT'' \<mapsto> (Some (110::real), Some (111::real))] ''XBTUSDT'' = Some (b, a) \<and>
      bitmex_trade_pnl b a ex_linear_trade = Inr (ex_linear_trade\<lparr>pnl := 1 / 50000\<rparr>)"
    by blast
  from 1 2 s2 3 4 s4 5 6 8 show ?thesis by blast
qed

text \<open>
  The claim as stated gives \<open>(bid - entry) * qty\<close> for every long position under linear
  contract math. On the linear Bitmex contract with multiplier \<open>100 * 10^-8\<close>, a long
  position of 2 entered at 100 and a bid of 110 give a PnL of 0.00002, not 20.
\<close>

theorem unrealized_pnl_counterexample:
  "bitmex_trade_pnl (Some 110) (Some 111) ex_linear_trade = Inr (ex_linear_trade\<lparr>pnl := 1 / 50000\<rparr>) \<and>
   status ex_linear_trade = ''open'' \<and> entry_price ex_linear_trade = Some 100 \<and>
   side ex_linear_trade = ''long'' \<and> \<not> inverse (t_contract ex_linear_trade) \<and>
   (110 - 100) * quantity ex_linear_trade = 20"
  by (simp add: bitmex_trade_pnl_def ex_linear_trade_def ex_linear_def Contract_init_bitmex_def
      BITMEX_MULTIPLIER_def)

subsection \<open>The REST wrapper\<close>

lemma make_request_known:
  assumes "method = ''GET'' \<or> method = ''POST'' \<or> method = ''DELETE''"
  shows "make_request method endpoint data st =
     (case http_request method endpoint data st of
        (Raises, st1) \<Rightarrow>
          (Inr None, st1\<lparr>error_log := error_log st1 @ [Connection_error method endpoint]\<rparr>)
      | (Response status_code body, st1) \<Rightarrow>
          if status_code = 200 then
            (case body of
               None \<Rightarrow> (Inl JSONDecodeError, st1)
             | Some j \<Rightarrow> (Inr (Some j), st1))
          else
            (case body of
               None \<Rightarrow> (Inl JSONDecodeError, st1)
             | Some j \<Rightarrow>
                 (Inr None,
                  st1\<lparr>error_log := error_log st1 @ [Request_error method endpoint j status_code]\<rparr>)))"
proof -
  have "(if method = ''GET'' then Some (http_request method endpoint data st)
            else if method = ''POST'' then Some (http_request method endpoint data st)
            else if method = ''DELETE'' then Some (http_request method endpoint data st)
            else None) = Some (http_request method endpoint data st)"
    using assms by presburger
  then show ?thesis unfolding make_request_def by (simp only: option.case)
qed

lemma make_request_failure:
  assumes "method = ''GET'' \<or> method = ''POST'' \<or> method = ''DELETE''"
    and "net st (length (sent st)) = Raises \<or>
         (\<exists>code j. net st (length (sent st)) = Response code (Some j) \<and> code \<noteq> 200)"
  shows "\<exists>entry. make_request method endpoint data st =
           (Inr None, st\<lparr>sent := sent st @ [(method, endpoint, data)],
                           error_log := error_log st @ [entry]\<rparr>)"
  using assms(2) unfolding make_request_known[OF assms(1)]
  by (auto simp: http_request_def)


text \<open>
  Claim C7. For a GET, POST or DELETE request whose transport raises, or whose response
  has a status other than 200 and a body that decodes, \<open>_make_request\<close> issues the one
  request, logs one error and returns \<open>None\<close> (lemma \<open>make_request_failure\<close>). The error
  branch, however, calls \<open>response.json()\<close> to build its log message: for a response
  with status 502 whose body is not JSON the decoding raises, and the exception leaves
  \<open>_make_request\<close> instead of the \<open>None\<close> that the claim promises.
\<close>

theorem make_request_undecodable_error_body:
  "make_request ''GET'' ''/fapi/v1/account'' () ex_rest =
     (Inl JSONDecodeError, ex_rest\<lparr>sent := [(''GET'', ''/fapi/v1/account'', ())]\<rparr>)"
  by (simp add: make_request_def http_request_def ex_rest_def)

subsection \<open>Websocket subscriptions\<close>

lemma contracts_lookup_symbol:
  assumes "contracts_lookup cs key = Some k"
  shows "symbol k = key"
proof -
  let ?f = "filter (\<lambda>k. symbol k = key) cs"
  have ne: "?f \<noteq> []" and k: "k = last ?f"
    using assms unfolding contracts_lookup_def by (auto split: list.splits)
  from ne have "last ?f \<in> set ?f" by (rule last_in_set)
  then show ?thesis using k by simp
qed

lemma subscribe_again:
  assumes "ws_subscriptions w channel = Some subs" and "symbol k \<in> set subs"
  shows "subscribe_channel [k] channel False w = Inr w"
    and "subscribe_channel [k] channel True w = Inr (ws_send [topic channel (symbol k)] w)"
proof -
  have triv: "w\<lparr>ws_subscriptions := (ws_subscriptions w)(channel \<mapsto> subs)\<rparr> = w"
    using assms(1) by (simp add: map_upd_triv)
  show "subscribe_channel [k] channel False w = Inr w"
    using assms by (simp add: subscribe_channel_def triv)
  show "subscribe_channel [k] channel True w = Inr (ws_send [topic channel (symbol k)] w)"
    using assms by (simp add: subscribe_channel_def triv)
qed

lemma subscribe_params_distinct:
  "distinct subs \<Longrightarrow> subscribe_params ks channel r params subs = (params1, subs1) \<Longrightarrow>
     distinct subs1 \<and> set subs1 = set subs \<union> symbol ` set ks"
proof (induction ks arbitrary: params subs)
  case Nil
  then show ?case by simp
next
  case (Cons k ks)
  show ?case
  proof (cases "symbol k \<in> set subs")
    case True
    then have "\<exists>p. subscribe_params ks channel r p subs = (params1, subs1)"
      using Cons.prems(2) by (auto split: if_splits)
    then obtain p where "subscribe_params ks channel r p subs = (params1, subs1)" by blast
    from Cons.IH[OF Cons.prems(1) this] True show ?thesis by auto
  next
    case False
    then have "subscribe_params ks channel r (params @ [topic channel (symbol k)]) (subs @ [symbol k])
                 = (params1, subs1)"
      using Cons.prems(2) by simp
    moreover have "distinct (subs @ [symbol k])" using False Cons.prems(1) by simp
    ultimately show ?thesis using Cons.IH by fastforce
  qed
qed

lemma ws_send_fields:
  "contracts (ws_send p w) = contracts w" "ws_subscriptions (ws_send p w) = ws_subscriptions w"
  "ws_connected (ws_send p w) = ws_connected w"
  by (simp_all add: ws_send_def)

lemma subscribe_channel_subs:
  assumes "subscribe_channel ks channel r w = Inr w1"
  shows "contracts w1 = contracts w \<and>
         (\<forall>ch. ch \<noteq> channel \<longrightarrow> ws_subscriptions w1 ch = ws_subscriptions w ch) \<and>
         (ks = [] \<longrightarrow> ws_subscriptions w1 = ws_subscriptions w) \<and>
         (ks \<noteq> [] \<longrightarrow> (\<exists>subs. ws_subscriptions w channel = Some subs \<and>
              ws_subscriptions w1 channel = Some (snd (subscribe_params ks channel r [] subs))))"
proof (cases "ks = []")
  case True
  then have "w1 = ws_send [channel] w" using assms by (simp add: subscribe_channel_def)
  then show ?thesis using True by (simp add: ws_send_fields)
next
  case False
  then obtain subs where subs: "ws_subscriptions w channel = Some subs"
    using assms by (cases "ws_subscriptions w channel") (auto simp: subscribe_channel_def)
  obtain params subs1 where sp: "subscribe_params ks channel r [] subs = (params, subs1)"
    by (metis surj_pair)
  let ?w1 = "w\<lparr>ws_subscriptions := (ws_subscriptions w)(channel \<mapsto> subs1)\<rparr>"
  have "w1 = ?w1 \<or> w1 = ws_send params ?w1"
    using assms False subs sp by (auto simp: subscribe_channel_def Let_def split: if_splits)
  then have "contracts w1 = contracts w" "ws_subscriptions w1 = (ws_subscriptions w)(channel \<mapsto> subs1)"
    by (auto simp: ws_send_fields)
  then show ?thesis using False subs sp by simp
qed

lemma subscribe_channel_distinct:
  assumes "\<forall>ch subs. ws_subscriptions w ch = Some subs \<longrightarrow> distinct subs"
    and "subscribe_channel ks channel r w = Inr w1"
  shows "\<forall>ch subs. ws_subscriptions w1 ch = Some subs \<longrightarrow> distinct subs"
proof (intro allI impI)
  fix ch subs1 assume s1: "ws_subscriptions w1 ch = Some subs1"
  note f = subscribe_channel_subs[OF assms(2)]
  show "distinct subs1"
  proof (cases "ks = [] \<or> ch \<noteq> channel")
    case True
    then have "ws_subscriptions w ch = Some subs1" using f s1 by auto
    then show ?thesis using assms(1) by blast
  next
    case False
    then obtain subs where subs: "ws_subscriptions w channel = Some subs"
      "ws_subscriptions w1 channel = Some (snd (subscribe_params ks channel r [] subs))"
      using f by blast
    have d: "distinct subs" using assms(1) subs(1) by blast
    obtain p s2 where sp: "subscribe_params ks channel r [] subs = (p, s2)" by (metis surj_pair)
    have "subs1 = s2" using subs(2) s1 False sp by simp
    then show ?thesis using subscribe_params_distinct[OF d sp] by simp
  qed
qed

lemma reassert_simps:
  "reassert channel [] w = w"
  "reassert channel (s # syms) w = reassert channel syms (ws_send [topic channel s] w)"
  by (simp_all add: reassert_def)

lemma reassert_fields:
  "contracts (reassert channel syms w) = contracts w \<and>
   ws_subscriptions (reassert channel syms w) = ws_subscriptions w \<and>
   ws_connected (reassert channel syms w) = ws_connected w"
  by (induction syms arbitrary: w) (simp_all add: reassert_simps ws_send_fields)

lemma reassert_sent:
  "\<exists>msgs. ws_sent (reassert channel syms w) = ws_sent w @ msgs \<and>
          map m_params msgs = map (\<lambda>s. [topic channel s]) syms \<and>
          map m_id msgs = [ws_id w..<ws_id w + length syms] \<and>
          ws_id (reassert channel syms w) = ws_id w + length syms"
proof (induction syms arbitrary: w)
  case Nil
  then show ?case by (simp add: reassert_simps)
next
  case (Cons s syms)
  let ?w1 = "ws_send [topic channel s] w"
  let ?m = "\<lparr>m_method = ''SUBSCRIBE'', m_params = [topic channel s], m_id = ws_id w\<rparr>"
  have w1: "ws_sent ?w1 = ws_sent w @ [?m]" "ws_id ?w1 = ws_id w + 1"
    by (simp_all add: ws_send_def)
  from Cons.IH[of ?w1] obtain msgs where
    m: "ws_sent (reassert channel syms ?w1) = ws_sent ?w1 @ msgs"
       "map m_params msgs = map (\<lambda>s. [topic channel s]) syms"
       "map m_id msgs = [ws_id ?w1..<ws_id ?w1 + length syms]"
       "ws_id (reassert channel syms ?w1) = ws_id ?w1 + length syms" by blast
  have "ws_sent (reassert channel (s # syms) w) = ws_sent w @ (?m # msgs)"
    using m(1) w1(1) by (simp add: reassert_simps)
  moreover have "map m_params (?m # msgs) = map (\<lambda>s. [topic channel s]) (s # syms)"
    using m(2) by simp
  moreover have "map m_id (?m # msgs) = [ws_id w..<ws_id w + length (s # syms)]"
  proof -
    have "[ws_id w..<ws_id w + length (s # syms)] =
          ws_id w # [Suc (ws_id w)..<ws_id w + length (s # syms)]"
      by (rule upt_conv_Cons) simp
    also have "[Suc (ws_id w)..<ws_id w + length (s # syms)] = [ws_id ?w1..<ws_id ?w1 + length syms]"
      unfolding w1(2) by (rule arg_cong2[of _ _ _ _ upt]) simp_all
    finally show ?thesis using m(3) by simp
  qed
  moreover have "ws_id (reassert channel (s # syms) w) = ws_id w + length (s # syms)"
    using m(4) w1(2) by (simp add: reassert_simps)
  ultimately show ?case by blast
qed


lemma on_open_loop_exact:
  assumes "ws_subscriptions w channel = Some subs"
    and "\<forall>s \<in> set subs. contracts_lookup (contracts w) s \<noteq> None"
    and "i \<le> length subs"
  shows "on_open_loop fuel channel i w =
           (if length subs - i < fuel then Some (None, reassert channel (drop i subs) w) else None)"
  using assms
proof (induction fuel arbitrary: i w)
  case 0
  then show ?case by simp
next
  case (Suc fuel)
  show ?case
  proof (cases "i < length subs")
    case False
    then have "drop i subs = []" "length subs - i < Suc fuel" using Suc.prems(3) by simp_all
    then show ?thesis using False Suc.prems(1) by (simp add: reassert_simps)
  next
    case True
    then have mem: "subs ! i \<in> set subs" by simp
    then obtain k where k: "contracts_lookup (contracts w) (subs ! i) = Some k"
      using Suc.prems(2) by blast
    have sk: "symbol k = subs ! i" using contracts_lookup_symbol[OF k] .
    let ?w1 = "ws_send [topic channel (subs ! i)] w"
    have sub: "subscribe_channel [k] channel True w = Inr ?w1"
      using subscribe_again(2)[OF Suc.prems(1), of k] mem sk by simp
    have 1: "ws_subscriptions ?w1 channel = Some subs"
      and 2: "\<forall>s \<in> set subs. contracts_lookup (contracts ?w1) s \<noteq> None"
      using Suc.prems(1,2) by (simp_all add: ws_send_fields)
    have 3: "Suc i \<le> length subs" using True by simp
    have r: "reassert channel (drop (Suc i) subs) ?w1 = reassert channel (drop i subs) w"
      using True by (simp add: reassert_simps flip: Cons_nth_drop_Suc)
    have c: "(length subs - Suc i < fuel) = (length subs - i < Suc fuel)" using True by auto
    have "on_open_loop (Suc fuel) channel i w = on_open_loop fuel channel (Suc i) ?w1"
      using Suc.prems(1) True k sub by simp
    also have "\<dots> = (if length subs - Suc i < fuel
                      then Some (None, reassert channel (drop (Suc i) subs) ?w1) else None)"
      by (rule Suc.IH[OF 1 2 3])
    finally show ?thesis unfolding r c .
  qed
qed

lemma on_open_exact:
  assumes bt: "ws_subscriptions w ''bookTicker'' = Some bt"
    and ag: "ws_subscriptions w ''aggTrade'' = Some ag"
    and known: "\<forall>s \<in> set (bt @ ag). contracts_lookup (contracts w) s \<noteq> None"
    and fuel: "length bt < fuel" "length ag < fuel"
  defines "w2 \<equiv> reassert ''aggTrade'' ag (reassert ''bookTicker'' bt (w\<lparr>ws_connected := True\<rparr>))"
  shows "on_open fuel w =
     Some (if ''BTCUSDT'' \<in> set bt then (None, w2)
           else case contracts_lookup (contracts w) ''BTCUSDT'' of
                  None \<Rightarrow> (Some KeyError, w2)
                | Some k \<Rightarrow> (None, ws_send [topic ''bookTicker'' ''BTCUSDT'']
                     (w2\<lparr>ws_subscriptions := (ws_subscriptions w)(''bookTicker'' \<mapsto> bt @ [''BTCUSDT''])\<rparr>)))"
proof -
  let ?w0 = "w\<lparr>ws_connected := True\<rparr>"
  let ?w1 = "reassert ''bookTicker'' bt ?w0"
  have l1: "on_open_loop fuel ''bookTicker'' 0 ?w0 = Some (None, ?w1)"
    using on_open_loop_exact[of ?w0 "''bookTicker''" bt 0 fuel] bt known fuel by simp
  have f1: "contracts ?w1 = contracts w" "ws_subscriptions ?w1 = ws_subscriptions w"
    using reassert_fields[of "''bookTicker''" bt ?w0] by simp_all
  have l2: "on_open_loop fuel ''aggTrade'' 0 ?w1 = Some (None, w2)"
    using on_open_loop_exact[of ?w1 "''aggTrade''" ag 0 fuel] ag known fuel
    by (simp add: f1 w2_def)
  have f2: "contracts w2 = contracts w" "ws_subscriptions w2 = ws_subscriptions w"
    using reassert_fields[of "''aggTrade''" ag ?w1] f1 by (simp_all add: w2_def)
  have unf: "on_open fuel w =
               (if ''BTCUSDT'' \<notin> set bt then
                      (case contracts_lookup (contracts w2) ''BTCUSDT'' of
                         None \<Rightarrow> Some (Some KeyError, w2)
                       | Some k \<Rightarrow>
                           (case subscribe_channel [k] ''bookTicker'' False w2 of
                              Inl e \<Rightarrow> Some (Some e, w2)
                            | Inr w3 \<Rightarrow> Some (None, w3)))
                    else Some (None, w2))"
    unfolding on_open_def l1 using l2 bt by (simp add: f2)
  show ?thesis
  proof (cases "''BTCUSDT'' \<in> set bt")
    case True
    then show ?thesis using unf by simp
  next
    case False
    show ?thesis
    proof (cases "contracts_lookup (contracts w) ''BTCUSDT''")
      case None
      then show ?thesis using unf False by (simp add: f2)
    next
      case (Some k)
      have sk: "symbol k = ''BTCUSDT''" using contracts_lookup_symbol[OF Some] .
      have "subscribe_channel [k] ''bookTicker'' False w2 =
              Inr (ws_send [topic ''bookTicker'' ''BTCUSDT'']
                     (w2\<lparr>ws_subscriptions := (ws_subscriptions w)(''bookTicker'' \<mapsto> bt @ [''BTCUSDT''])\<rparr>))"
        using False bt sk by (simp add: subscribe_channel_def f2)
      then show ?thesis using unf False Some by (simp add: f2)
    qed
  qed
qed

lemma ws_inv_init: "ws_inv (BinanceClient_ws_init cs)"
  by (simp add: ws_inv_def BinanceClient_ws_init_def)

lemma ws_inv_subscribe:
  assumes inv: "ws_inv w"
    and ks: "\<forall>k \<in> set ks. contracts_lookup (contracts w) (symbol k) \<noteq> None"
    and sub: "subscribe_channel ks channel r w = Inr w1"
  shows "ws_inv w1"
proof -
  from inv obtain bt ag where w: "ws_subscriptions w ''bookTicker'' = Some bt"
    "ws_subscriptions w ''aggTrade'' = Some ag" "distinct bt" "distinct ag"
    "\<forall>s \<in> set (bt @ ag). contracts_lookup (contracts w) s \<noteq> None"
    unfolding ws_inv_def by blast
  note f = subscribe_channel_subs[OF sub]
  have c: "contracts w1 = contracts w" using f by simp
  have upd: "\<exists>subs1. ws_subscriptions w1 ch = Some subs1 \<and> distinct subs1 \<and>
               (\<forall>s \<in> set subs1. contracts_lookup (contracts w) s \<noteq> None)"
    if ch: "ws_subscriptions w ch = Some subs" "distinct subs"
        "\<forall>s \<in> set subs. contracts_lookup (contracts w) s \<noteq> None" for ch subs
  proof (cases "ks = [] \<or> ch \<noteq> channel")
    case True
    then have "ws_subscriptions w1 ch = Some subs" using f ch(1) by auto
    then show ?thesis using ch by simp
  next
    case False
    then have s1: "ws_subscriptions w1 ch = Some (snd (subscribe_params ks channel r [] subs))"
      using f ch(1) by auto
    obtain p s2 where sp: "subscribe_params ks channel r [] subs = (p, s2)" by (metis surj_pair)
    from subscribe_params_distinct[OF ch(2) sp]
    have "distinct s2" "set s2 = set subs \<union> symbol ` set ks" by auto
    then show ?thesis using s1 sp ch(3) ks by auto
  qed
  from upd[OF w(1,3)] w(5) obtain bt1 where b: "ws_subscriptions w1 ''bookTicker'' = Some bt1"
    "distinct bt1" "\<forall>s \<in> set bt1. contracts_lookup (contracts w) s \<noteq> None" by auto
  from upd[OF w(2,4)] w(5) obtain ag1 where a: "ws_subscriptions w1 ''aggTrade'' = Some ag1"
    "distinct ag1" "\<forall>s \<in> set ag1. contracts_lookup (contracts w) s \<noteq> None" by auto
  show ?thesis unfolding ws_inv_def using a b c by auto
qed

lemma ws_inv_on_open:
  assumes inv: "ws_inv w" and op: "on_open fuel w = Some (err, w1)"
  shows "ws_inv w1"
proof -
  from inv obtain bt ag where w: "ws_subscriptions w ''bookTicker'' = Some bt"
    "ws_subscriptions w ''aggTrade'' = Some ag" "distinct bt" "distinct ag"
    "\<forall>s \<in> set (bt @ ag). contracts_lookup (contracts w) s \<noteq> None"
    unfolding ws_inv_def by blast
  let ?w0 = "w\<lparr>ws_connected := True\<rparr>"
  let ?w1 = "reassert ''bookTicker'' bt ?w0"
  have l1: "on_open_loop fuel ''bookTicker'' 0 ?w0 =
              (if length bt < fuel then Some (None, ?w1) else None)"
    using on_open_loop_exact[of ?w0 "''bookTicker''" bt 0 fuel] w by simp
  have f1: "contracts ?w1 = contracts w" "ws_subscriptions ?w1 = ws_subscriptions w"
    using reassert_fields[of "''bookTicker''" bt ?w0] by simp_all
  have l2: "on_open_loop fuel ''aggTrade'' 0 ?w1 =
              (if length ag < fuel then Some (None, reassert ''aggTrade'' ag ?w1) else None)"
    using on_open_loop_exact[of ?w1 "''aggTrade''" ag 0 fuel] w by (simp add: f1)
  have fuel: "length bt < fuel" "length ag < fuel"
  proof -
    show "length bt < fuel"
      using op l1 unfolding on_open_def by (auto split: if_splits)
    then show "length ag < fuel"
      using op l1 l2 unfolding on_open_def by (auto split: if_splits)
  qed
  let ?w2 = "reassert ''aggTrade'' ag ?w1"
  have f2: "contracts ?w2 = contracts w" "ws_subscriptions ?w2 = ws_subscriptions w"
    using reassert_fields[of "''aggTrade''" ag ?w1] f1 by simp_all
  have inv2: "ws_inv ?w2" using w unfolding ws_inv_def f2 by blast
  note ex = on_open_exact[OF w(1,2,5) fuel]
  show ?thesis
  proof (cases "''BTCUSDT'' \<in> set bt")
    case True
    then have "w1 = ?w2" using ex op by simp
    then show ?thesis using inv2 by simp
  next
    case False
    show ?thesis
    proof (cases "contracts_lookup (contracts w) ''BTCUSDT''")
      case None
      then have "w1 = ?w2" using ex op False by simp
      then show ?thesis using inv2 by simp
    next
      case (Some k)
      then have w1: "w1 = ws_send [topic ''bookTicker'' ''BTCUSDT'']
                     (?w2\<lparr>ws_subscriptions := (ws_subscriptions w)(''bookTicker'' \<mapsto> bt @ [''BTCUSDT''])\<rparr>)"
        using ex op False by simp
      have "ws_subscriptions w1 ''bookTicker'' = Some (bt @ [''BTCUSDT''])"
        "ws_subscriptions w1 ''aggTrade'' = Some ag" "contracts w1 = contracts w"
        using w(2) by (simp_all add: w1 ws_send_fields f2)
      moreover have "distinct (bt @ [''BTCUSDT''])" using w(3) False by simp
      moreover have "\<forall>s \<in> set ((bt @ [''BTCUSDT'']) @ ag). contracts_lookup (contracts w) s \<noteq> None"
        using w(5) Some by auto
      ultimately show ?thesis unfolding ws_inv_def using w(4) by auto
    qed
  qed
qed

lemma ws_reachable_inv: "ws_reachable w \<Longrightarrow> ws_inv w"
proof (induction rule: ws_reachable.induct)
  case (constructed cs)
  then show ?case by (rule ws_inv_init)
next
  case (subscribed w ks channel r w1)
  have "\<forall>k \<in> set ks. contracts_lookup (contracts w) (symbol k) \<noteq> None"
    using subscribed.hyps(2) by simp
  then show ?case using ws_inv_subscribe[OF subscribed.IH _ subscribed.hyps(3)] by blast
next
  case (opened w fuel err w1)
  then show ?case using ws_inv_on_open by blast
qed

text \<open>
  Claim C9. Subscribing, without the reconnection flag, a symbol that the list of the
  channel already holds returns the client unchanged: no message, no new entry, the
  same message id. \<open>subscribe_channel\<close> never introduces a duplicate into a subscription
  list. In every client reachable from the constructor both lists are free of
  duplicates, and \<open>_on_open\<close> (with enough fuel for its two loops, it returns) hands to
  the socket exactly one subscribe message per recorded symbol, first those of
  \<open>bookTicker\<close>, then those of \<open>aggTrade\<close>, in the order of the lists, each with the single
  topic of that symbol; after them comes at most the first subscription of BTCUSDT,
  when it was not recorded. The lists are unchanged but for that entry, and still free
  of duplicates.
\<close>

theorem subscriptions_idempotent:
  "(ws_subscriptions w channel = Some subs \<and> symbol k \<in> set subs \<longrightarrow>
      subscribe_channel [k] channel False w = Inr w) \<and>
   ((\<forall>ch l. ws_subscriptions w ch = Some l \<longrightarrow> distinct l) \<and>
    subscribe_channel ks channel r w = Inr w1 \<longrightarrow>
      (\<forall>ch l. ws_subscriptions w1 ch = Some l \<longrightarrow> distinct l)) \<and>
   (ws_reachable w \<longrightarrow>
      (\<exists>bt ag. ws_subscriptions w ''bookTicker'' = Some bt \<and>
               ws_subscriptions w ''aggTrade'' = Some ag \<and> distinct bt \<and> distinct ag \<and>
         (\<forall>fuel. length bt < fuel \<and> length ag < fuel \<longrightarrow>
            (\<exists>err w' msgs extra.
               on_open fuel w = Some (err, w') \<and>
               ws_sent w' = ws_sent w @ msgs @ extra \<and>
               map m_params msgs = map (\<lambda>s. [topic ''bookTicker'' s]) bt @
                                   map (\<lambda>s. [topic ''aggTrade'' s]) ag \<and>
               (if ''BTCUSDT'' \<in> set bt \<or> contracts_lookup (contracts w) ''BTCUSDT'' = None
                then extra = [] \<and> ws_subscriptions w' ''bookTicker'' = Some bt
                else map m_params extra = [ [topic ''bookTicker'' ''BTCUSDT''] ] \<and>
                     ws_subscriptions w' ''bookTicker'' = Some (bt @ [''BTCUSDT''])) \<and>
               ws_subscriptions w' ''aggTrade'' = Some ag \<and>
               ws_inv w'))))"
proof (intro conjI impI)
  assume "ws_subscriptions w channel = Some subs \<and> symbol k \<in> set subs"
  then show "subscribe_channel [k] channel False w = Inr w"
    using subscribe_again(1) by blast
next
  assume "(\<forall>ch l. ws_subscriptions w ch = Some l \<longrightarrow> distinct l) \<and>
    subscribe_channel ks channel r w = Inr w1"
  then show "\<forall>ch l. ws_subscriptions w1 ch = Some l \<longrightarrow> distinct l"
    using subscribe_channel_distinct by blast
next
  assume r: "ws_reachable w"
  then have inv: "ws_inv w" by (rule ws_reachable_inv)
  then obtain bt ag where w: "ws_subscriptions w ''bookTicker'' = Some bt"
    "ws_subscriptions w ''aggTrade'' = Some ag" "distinct bt" "distinct ag"
    "\<forall>s \<in> set (bt @ ag). contracts_lookup (contracts w) s \<noteq> None"
    unfolding ws_inv_def by blast
  have main: "\<exists>err w' msgs extra.
               on_open fuel w = Some (err, w') \<and>
               ws_sent w' = ws_sent w @ msgs @ extra \<and>
               map m_params msgs = map (\<lambda>s. [topic ''bookTicker'' s]) bt @
                                   map (\<lambda>s. [topic ''aggTrade'' s]) ag \<and>
               (if ''BTCUSDT'' \<in> set bt \<or> contracts_lookup (contracts w) ''BTCUSDT'' = None
                then extra = [] \<and> ws_subscriptions w' ''bookTicker'' = Some bt
                else map m_params extra = [ [topic ''bookTicker'' ''BTCUSDT''] ] \<and>
                     ws_subscriptions w' ''bookTicker'' = Some (bt @ [''BTCUSDT''])) \<and>
               ws_subscriptions w' ''aggTrade'' = Some ag \<and>
               ws_inv w'"
    if fuel: "length bt < fuel \<and> length ag < fuel" for fuel
  proof -
    let ?w0 = "w\<lparr>ws_connected := True\<rparr>"
    let ?w1 = "reassert ''bookTicker'' bt ?w0"
    let ?w2 = "reassert ''aggTrade'' ag ?w1"
    from reassert_sent[of "''bookTicker''" bt ?w0] obtain m1 where
      m1: "ws_sent ?w1 = ws_sent w @ m1" "map m_params m1 = map (\<lambda>s. [topic ''bookTicker'' s]) bt"
      by auto
    from reassert_sent[of "''aggTrade''" ag ?w1] obtain m2 where
      m2: "ws_sent ?w2 = ws_sent ?w1 @ m2" "map m_params m2 = map (\<lambda>s. [topic ''aggTrade'' s]) ag"
      by auto
    have sent2: "ws_sent ?w2 = ws_sent w @ (m1 @ m2) @ []"
      "map m_params (m1 @ m2) = map (\<lambda>s. [topic ''bookTicker'' s]) bt @
                                   map (\<lambda>s. [topic ''aggTrade'' s]) ag"
      using m1 m2 by simp_all
    have f2: "contracts ?w2 = contracts w" "ws_subscriptions ?w2 = ws_subscriptions w"
      using reassert_fields[of "''aggTrade''" ag ?w1] reassert_fields[of "''bookTicker''" bt ?w0]
      by simp_all
    note ex = on_open_exact[OF w(1,2,5), of fuel]
    obtain err w' where o: "on_open fuel w = Some (err, w')"
      using ex fuel by (metis surj_pair)
    have inv': "ws_inv w'" using ws_inv_on_open[OF inv o] .
    show ?thesis
    proof (cases "''BTCUSDT'' \<in> set bt \<or> contracts_lookup (contracts w) ''BTCUSDT'' = None")
      case True
      then have "w' = ?w2" using ex o fuel by (auto split: option.splits if_splits)
      then show ?thesis using o sent2 True w(1,2) inv' f2 by (metis (no_types, lifting))
    next
      case False
      then obtain k where k: "contracts_lookup (contracts w) ''BTCUSDT'' = Some k" by auto
      let ?m = "\<lparr>m_method = ''SUBSCRIBE'', m_params = [topic ''bookTicker'' ''BTCUSDT''],
                  m_id = ws_id ?w2\<rparr>"
      have w': "w' = ws_send [topic ''bookTicker'' ''BTCUSDT'']
                     (?w2\<lparr>ws_subscriptions := (ws_subscriptions w)(''bookTicker'' \<mapsto> bt @ [''BTCUSDT''])\<rparr>)"
        using ex o fuel False k by simp
      have s: "ws_sent w' = ws_sent w @ (m1 @ m2) @ [?m]"
        using sent2(1) by (simp add: w' ws_send_def)
      have p: "map m_params [?m] = [ [topic ''bookTicker'' ''BTCUSDT''] ]" by simp
      have b: "ws_subscriptions w' ''bookTicker'' = Some (bt @ [''BTCUSDT''])"
        "ws_subscriptions w' ''aggTrade'' = Some ag"
        using w(2) by (simp_all add: w' ws_send_def)
      show ?thesis
        apply (rule exI[of _ err], rule exI[of _ w'], rule exI[of _ "m1 @ m2"], rule exI[of _ "[?m]"])
        using o s sent2(2) p b inv' False by simp
    qed
  qed
  show "\<exists>bt ag. ws_subscriptions w ''bookTicker'' = Some bt \<and>
               ws_subscriptions w ''aggTrade'' = Some ag \<and> distinct bt \<and> distinct ag \<and>
         (\<forall>fuel. length bt < fuel \<and> length ag < fuel \<longrightarrow>
            (\<exists>err w' msgs extra.
               on_open fuel w = Some (err, w') \<and>
               ws_sent w' = ws_sent w @ msgs @ extra \<and>
               map m_params msgs = map (\<lambda>s. [topic ''bookTicker'' s]) bt @
                                   map (\<lambda>s. [topic ''aggTrade'' s]) ag \<and>
               (if ''BTCUSDT'' \<in> set bt \<or> contracts_lookup (contracts w) ''BTCUSDT'' = None
                then extra = [] \<and> ws_subscriptions w' ''bookTicker'' = Some bt
                else map m_params extra = [ [topic ''bookTicker'' ''BTCUSDT''] ] \<and>
                     ws_subscriptions w' ''bookTicker'' = Some (bt @ [''BTCUSDT''])) \<and>
               ws_subscriptions w' ''aggTrade'' = Some ag \<and>
               ws_inv w'))"
    using w(1-4) main by blast
qed

lemma ex_topic: "topic ''bookTicker'' ''BTCUSDT'' = ''btcusdt@bookTicker''"
  by code_simp

lemma ex_ws_subscribed:
  "subscribe_channel [ex_contract] ''bookTicker'' False (BinanceClient_ws_init [ex_contract]) = Inr ex_ws"
proof -
  have s: "symbol ex_contract = ''BTCUSDT''" by (simp add: ex_contract_def)
  show ?thesis
    by (simp add: subscribe_channel_def BinanceClient_ws_init_def ws_send_def ex_topic s ex_ws_def)
qed

lemma ex_ws_reachable: "ws_reachable ex_ws"
proof -
  have "\<forall>k \<in> set [ex_contract].
          contracts_lookup (contracts (BinanceClient_ws_init [ex_contract])) (symbol k) = Some k"
    by (simp add: contracts_lookup_def BinanceClient_ws_init_def)
  from ws_reachable.subscribed[OF ws_reachable.constructed this ex_ws_subscribed]
  show ?thesis .
qed


theorem subscriptions_idempotent_witness:
  "ws_reachable ex_ws \<and>
   subscribe_channel [ex_contract] ''bookTicker'' False ex_ws = Inr ex_ws \<and>
   subscribe_channel [ex_contract] ''bookTicker'' False (BinanceClient_ws_init [ex_contract]) =
     Inr ex_ws \<and>
   ws_subscriptions ex_ws ''bookTicker'' = Some [''BTCUSDT''] \<and> distinct [''BTCUSDT''] \<and>
   (\<exists>err w' msgs.
      on_open 2 ex_ws = Some (err, w') \<and> ws_sent w' = ws_sent ex_ws @ msgs \<and>
      map m_params msgs = [ [''btcusdt@bookTicker''] ] \<and>
      ws_subscriptions w' ''bookTicker'' = Some [''BTCUSDT''] \<and>
      ws_subscriptions w' ''aggTrade'' = Some [])"
proof -
  note inst = subscriptions_idempotent[of ex_ws "''bookTicker''" "[''BTCUSDT'']" ex_contract
      "[]" False ex_ws]
  have bt: "ws_subscriptions ex_ws ''bookTicker'' = Some [''BTCUSDT'']"
    and ag: "ws_subscriptions ex_ws ''aggTrade'' = Some []"
    and sy: "symbol ex_contract \<in> set [''BTCUSDT'']"
    by (simp_all add: ex_ws_def ex_contract_def)
  have 1: "subscribe_channel [ex_contract] ''bookTicker'' False ex_ws = Inr ex_ws"
    using inst bt sy by blast
  from inst ex_ws_reachable obtain bt' ag' where
    r: "ws_subscriptions ex_ws ''bookTicker'' = Some bt'" "ws_subscriptions ex_ws ''aggTrade'' = Some ag'"
       "\<forall>fuel. length bt' < fuel \<and> length ag' < fuel \<longrightarrow>
            (\<exists>err w' msgs extra.
               on_open fuel ex_ws = Some (err, w') \<and>
               ws_sent w' = ws_sent ex_ws @ msgs @ extra \<and>
               map m_params msgs = map (\<lambda>s. [topic ''bookTicker'' s]) bt' @
                                   map (\<lambda>s. [topic ''aggTrade'' s]) ag' \<and>
               (if ''BTCUSDT'' \<in> set bt' \<or> contracts_lookup (contracts ex_ws) ''BTCUSDT'' = None
                then extra = [] \<and> ws_subscriptions w' ''bookTicker'' = Some bt'
                else map m_params extra = [ [topic ''bookTicker'' ''BTCUSDT''] ] \<and>
                     ws_subscriptions w' ''bookTicker'' = Some (bt' @ [''BTCUSDT''])) \<and>
               ws_subscriptions w' ''aggTrade'' = Some ag' \<and>
               ws_inv w')"
    by blast
  have e: "bt' = [''BTCUSDT'']" "ag' = []" using r(1,2) bt ag by simp_all
  from r(3)[rule_format, of 2] obtain err w' msgs extra where
    o: "on_open 2 ex_ws = Some (err, w')" "ws_sent w' = ws_sent ex_ws @ msgs @ extra"
       "map m_params msgs = [ [topic ''bookTicker'' ''BTCUSDT''] ]"
       "extra = [] \<and> ws_subscriptions w' ''bookTicker'' = Some [''BTCUSDT'']"
       "ws_subscriptions w' ''aggTrade'' = Some []"
    unfolding e by auto
  have init: "\<forall>ch l. ws_subscriptions (BinanceClient_ws_init [ex_contract]) ch = Some l \<longrightarrow> distinct l"
    by (simp add: BinanceClient_ws_init_def)
  have 2: "distinct [''BTCUSDT'']"
    using subscriptions_idempotent[of "BinanceClient_ws_init [ex_contract]" "''bookTicker''" "[]"
        ex_contract "[ex_contract]" False ex_ws] init ex_ws_subscribed bt
    by blast
  have "ws_sent w' = ws_sent ex_ws @ msgs" using o(2,4) by simp
  then show ?thesis using 1 2 bt ex_ws_subscribed ex_ws_reachable o ex_topic by auto
qed

end
